theory Spec2Isabelle
  imports Complex_Main "HOL-Library.Word"
begin

unbundle bit_operations_syntax

section \<open>Data model (database/models.py)\<close>

text \<open>
  The tables of the platform. A column holding one of a fixed list of strings is a
  datatype with one constructor per string; a nullable column is an option; a table is the
  list of its rows. Times are seconds on a clock, read by the handler that runs.
\<close>

datatype target_status = Pending | Sent | Opened | Clicked | Submitted

datatype event_kind = EvSent | EvOpened | EvClicked | EvSubmitted | EvBounced

datatype campaign_status = Draft | Active | Completed | Paused

datatype json = JStr string | JBool bool | JNum int | JTime nat | JNone

record template =
  tpl_id :: nat
  tpl_name :: string
  tpl_subject :: string
  tpl_html_content :: string

record campaign =
  c_id :: nat
  c_name :: string
  c_template_id :: nat
  c_status :: campaign_status
  c_consent_verified :: bool
  c_created_by :: nat
  c_started_at :: "nat option"
  c_completed_at :: "nat option"

record target =
  t_id :: nat
  t_email :: string
  t_first_name :: "string option"
  t_last_name :: "string option"
  t_department :: "string option"

record campaign_target =
  ct_id :: nat
  ct_campaign_id :: nat
  ct_target_id :: nat
  ct_status :: target_status
  ct_unique_token :: string
  ct_sent_at :: "nat option"

record email_event =
  ev_id :: nat
  ev_campaign_target_id :: nat
  ev_event_type :: event_kind
  ev_timestamp :: nat
  ev_ip_address :: "string option"
  ev_user_agent :: "string option"
  ev_metadata :: "string option"

record audit_log =
  al_user_id :: "nat option"
  al_action :: string
  al_resource_type :: string
  al_resource_id :: nat
  al_details :: "(string \<times> json) list"
  al_ip_address :: string
  al_timestamp :: nat

record db =
  templates :: "template list"
  campaigns :: "campaign list"
  targets :: "target list"
  campaign_targets :: "campaign_target list"
  email_events :: "email_event list"
  audit_logs :: "audit_log list"

text \<open>The order of the status column: pending, sent, opened, clicked, submitted.\<close>

fun rank :: "target_status \<Rightarrow> nat" where
  "rank Pending = 0"
| "rank Sent = 1"
| "rank Opened = 2"
| "rank Clicked = 3"
| "rank Submitted = 4"

subsection \<open>Queries and updates of the session\<close>

text \<open>\<open>CampaignTarget.query.filter_by(unique_token=token).first()\<close>\<close>

definition find_by_token :: "db \<Rightarrow> string \<Rightarrow> campaign_target option" where
  "find_by_token d token = find (\<lambda>ct. ct_unique_token ct = token) (campaign_targets d)"

text \<open>\<open>EmailEvent.query.filter_by(campaign_target_id=.., event_type=..).first()\<close>\<close>

definition first_event :: "db \<Rightarrow> nat \<Rightarrow> event_kind \<Rightarrow> email_event option" where
  "first_event d cid k =
     find (\<lambda>e. ev_campaign_target_id e = cid \<and> ev_event_type e = k) (email_events d)"

text \<open>The row of a primary key, and its status.\<close>

definition get_campaign_target :: "db \<Rightarrow> nat \<Rightarrow> campaign_target option" where
  "get_campaign_target d cid = find (\<lambda>ct. ct_id ct = cid) (campaign_targets d)"

definition status_of :: "db \<Rightarrow> nat \<Rightarrow> target_status option" where
  "status_of d cid = map_option ct_status (get_campaign_target d cid)"

definition get_campaign :: "db \<Rightarrow> nat \<Rightarrow> campaign option" where
  "get_campaign d i = find (\<lambda>c. c_id c = i) (campaigns d)"

definition get_template :: "db \<Rightarrow> nat \<Rightarrow> template option" where
  "get_template d i = find (\<lambda>t. tpl_id t = i) (templates d)"

definition get_target :: "db \<Rightarrow> nat \<Rightarrow> target option" where
  "get_target d i = find (\<lambda>t. t_id t = i) (targets d)"

text \<open>An inserted event gets the next key of the table.\<close>

definition next_event_id :: "db \<Rightarrow> nat" where
  "next_event_id d = Suc (fold max (map ev_id (email_events d)) 0)"

text \<open>
  \<open>EmailEvent(..., metadata={...})\<close> and \<open>db.session.add(event)\<close>: the row goes to the
  end of the table. \<open>ev_metadata\<close> is the Text column of the row, a JSON string or NULL.
  The class declares that column under the attribute name \<open>metadata\<close> (database/models.py),
  the name under which a declarative class holds the \<open>MetaData\<close> of its tables, so the
  keyword \<open>metadata\<close> of the constructor sets no column: the dictionary \<open>md\<close> the
  caller builds is not stored and the column stays NULL. \<open>set_metadata\<close>, which would
  store the dictionary as a JSON string, is called nowhere.
\<close>

definition add_event ::
  "db \<Rightarrow> nat \<Rightarrow> event_kind \<Rightarrow> nat \<Rightarrow> string option \<Rightarrow> string option \<Rightarrow> (string \<times> json) list \<Rightarrow> db" where
  "add_event d cid k ts ip ua md =
     d\<lparr>email_events := email_events d @
        [\<lparr>ev_id = next_event_id d, ev_campaign_target_id = cid, ev_event_type = k,
          ev_timestamp = ts, ev_ip_address = ip, ev_user_agent = ua, ev_metadata = None\<rparr>]\<rparr>"

text \<open>
  An assignment to \<open>campaign_target.status\<close> is written back to the row of that primary
  key when the session commits.
\<close>

definition set_status :: "db \<Rightarrow> nat \<Rightarrow> target_status \<Rightarrow> db" where
  "set_status d cid s =
     d\<lparr>campaign_targets :=
        map (\<lambda>ct. if ct_id ct = cid then ct\<lparr>ct_status := s\<rparr> else ct) (campaign_targets d)\<rparr>"

section \<open>Rate limiting (utils/security.py, rate_limit_check)\<close>

text \<open>
  The Redis server: each key holds a counter and, when it was set with \<open>ex=\<close>, the time at
  which it expires. Each call of the client may raise (the server is unreachable, the
  package is missing, the reply is malformed): \<open>redis_raises\<close> says which calls do.
\<close>

datatype redis_op = OpFromUrl | OpGet | OpIncr | OpSet

datatype exn = RedisError redis_op | AttributeError string

record redis =
  redis_store :: "string \<Rightarrow> (int \<times> nat option) option"
  redis_raises :: "redis_op \<Rightarrow> bool"

definition live :: "nat \<Rightarrow> (int \<times> nat option) option \<Rightarrow> int option" where
  "live now entry =
     (case entry of
        None \<Rightarrow> None
      | Some (v, None) \<Rightarrow> Some v
      | Some (v, Some deadline) \<Rightarrow> if now < deadline then Some v else None)"

definition redis_get :: "redis \<Rightarrow> nat \<Rightarrow> string \<Rightarrow> exn + int option" where
  "redis_get r now key =
     (if redis_raises r OpGet then Inl (RedisError OpGet)
      else Inr (live now (redis_store r key)))"

definition redis_incr :: "redis \<Rightarrow> nat \<Rightarrow> string \<Rightarrow> exn + redis" where
  "redis_incr r now key =
     (if redis_raises r OpIncr then Inl (RedisError OpIncr)
      else Inr (r\<lparr>redis_store := (redis_store r)
              (key := (case redis_store r key of
                         None \<Rightarrow> Some (1, None)
                       | Some (v, ttl) \<Rightarrow>
                           (case live now (Some (v, ttl)) of
                              None \<Rightarrow> Some (1, None)
                            | Some c \<Rightarrow> Some (c + 1, ttl))))\<rparr>))"

definition redis_set_ex :: "redis \<Rightarrow> nat \<Rightarrow> string \<Rightarrow> int \<Rightarrow> nat \<Rightarrow> exn + redis" where
  "redis_set_ex r now key v window =
     (if redis_raises r OpSet then Inl (RedisError OpSet)
      else Inr (r\<lparr>redis_store := (redis_store r)(key := Some (v, Some (now + window)))\<rparr>))"

text \<open>The body of the \<open>try\<close>: an exception of any call leaves it.\<close>

definition rate_limit_try ::
  "redis \<Rightarrow> nat \<Rightarrow> string \<Rightarrow> int \<Rightarrow> nat \<Rightarrow> exn + (bool \<times> redis)" where
  "rate_limit_try r now identifier limit window =
     (if redis_raises r OpFromUrl then Inl (RedisError OpFromUrl)
      else
        let key = ''rate_limit:'' @ identifier in
        case redis_get r now key of
          Inl e \<Rightarrow> Inl e
        | Inr current \<Rightarrow>
            (case current of
               Some c \<Rightarrow>
                 if c \<ge> limit then Inr (False, r)
                 else (case redis_incr r now key of
                         Inl e \<Rightarrow> Inl e
                       | Inr r' \<Rightarrow> Inr (True, r'))
             | None \<Rightarrow>
                 (case redis_set_ex r now key 1 window of
                    Inl e \<Rightarrow> Inl e
                  | Inr r' \<Rightarrow> Inr (True, r'))))"

text \<open>The bare \<open>except:\<close> answers True.\<close>

definition rate_limit_check :: "redis \<Rightarrow> nat \<Rightarrow> string \<Rightarrow> int \<Rightarrow> nat \<Rightarrow> bool \<times> redis" where
  "rate_limit_check r now identifier limit window =
     (case rate_limit_try r now identifier limit window of
        Inl e \<Rightarrow> (True, r)
      | Inr res \<Rightarrow> res)"

section \<open>Tracking triggers (routes/tracking.py)\<close>

text \<open>
  What a handler reads of the request. The form payload of a POST is part of the request;
  \<open>req_now\<close> is the clock when the request is handled, \<open>req_user\<close> the logged-in user
  (\<open>current_user\<close>), if any.
\<close>

record user =
  u_id :: nat
  u_is_admin :: bool

record request =
  req_remote_addr :: string
  req_x_forwarded_for :: "string option"
  req_user_agent :: "string option"
  req_referer :: "string option"
  req_form :: "(string \<times> string) list"
  req_user :: "user option"
  req_now :: nat

datatype response =
    Pixel
  | Empty nat
  | ErrorPage nat
  | TrainingPage "target option" campaign string
  | Json "(string \<times> json) list" nat

text \<open>\<open>request.environ.get('HTTP_X_FORWARDED_FOR', request.remote_addr)\<close>\<close>

definition client_ip :: "request \<Rightarrow> string" where
  "client_ip req =
     (case req_x_forwarded_for req of Some a \<Rightarrow> a | None \<Rightarrow> req_remote_addr req)"

text \<open>\<open>send_tracking_pixel\<close>: the file or the built-in PNG, the same image.\<close>

definition send_tracking_pixel :: response where
  "send_tracking_pixel = Pixel"

definition track_open :: "db \<times> redis \<Rightarrow> request \<Rightarrow> string \<Rightarrow> response \<times> db \<times> redis" where
  "track_open st req token =
     (let d = fst st;
          ip = client_ip req;
          (ok, r) = rate_limit_check (snd st) (req_now req) (''open_'' @ ip) 30 60
      in if \<not> ok then (Empty 429, d, r)
         else
           case find_by_token d token of
             None \<Rightarrow> (Empty 404, d, r)
           | Some campaign_target \<Rightarrow>
               (case first_event d (ct_id campaign_target) EvOpened of
                  Some existing_open \<Rightarrow> (send_tracking_pixel, d, r)
                | None \<Rightarrow>
                    let d1 = add_event d (ct_id campaign_target) EvOpened (req_now req)
                               (Some ip) (req_user_agent req)
                               [(''referer'', case req_referer req of None \<Rightarrow> JNone | Some s \<Rightarrow> JStr s),
                                (''timestamp'', JTime (req_now req))];
                        d2 = (if ct_status campaign_target = Sent
                              then set_status d1 (ct_id campaign_target) Opened else d1)
                    in (send_tracking_pixel, d2, r)))"

text \<open>\<open>log_audit\<close> (utils/security.py): one row of the audit table, committed.\<close>

definition log_audit ::
  "db \<Rightarrow> request \<Rightarrow> string \<Rightarrow> string \<Rightarrow> nat \<Rightarrow> (string \<times> json) list \<Rightarrow> db" where
  "log_audit d req action resource_type resource_id details =
     d\<lparr>audit_logs := audit_logs d @
        [\<lparr>al_user_id = map_option u_id (req_user req), al_action = action, al_resource_type = resource_type,
          al_resource_id = resource_id, al_details = details, al_ip_address = client_ip req,
          al_timestamp = req_now req\<rparr>]\<rparr>"

text \<open>
  \<open>track_click\<close>. The training page is rendered from the target, the campaign and the
  token; \<open>extract_phishing_indicators\<close> reads \<open>campaign.template\<close> and raises when the
  campaign has none, which the handler answers with the 500 page.
\<close>

definition track_click :: "db \<times> redis \<Rightarrow> request \<Rightarrow> string \<Rightarrow> response \<times> db \<times> redis" where
  "track_click st req token =
     (let d = fst st;
          ip = client_ip req;
          (ok, r) = rate_limit_check (snd st) (req_now req) (''click_'' @ ip) 20 60
      in if \<not> ok then (Empty 429, d, r)
         else
           case find_by_token d token of
             None \<Rightarrow> (ErrorPage 404, d, r)
           | Some campaign_target \<Rightarrow>
               let d2 =
                 (case first_event d (ct_id campaign_target) EvClicked of
                    Some existing_click \<Rightarrow> d
                  | None \<Rightarrow>
                      let d1 = add_event d (ct_id campaign_target) EvClicked (req_now req)
                                 (Some ip) (req_user_agent req)
                                 [(''referer'', case req_referer req of None \<Rightarrow> JNone | Some s \<Rightarrow> JStr s),
                                  (''timestamp'', JTime (req_now req))]
                      in if ct_status campaign_target \<in> {Sent, Opened}
                         then set_status d1 (ct_id campaign_target) Clicked else d1)
               in case get_campaign d2 (ct_campaign_id campaign_target) of
                    None \<Rightarrow> (ErrorPage 404, d2, r)
                  | Some campaign \<Rightarrow>
                      (case get_template d2 (c_template_id campaign) of
                         None \<Rightarrow> (ErrorPage 500, d2, r)
                       | Some tpl \<Rightarrow>
                           (TrainingPage (get_target d2 (ct_target_id campaign_target))
                              campaign token, d2, r)))"

text \<open>
  \<open>track_submission\<close>. \<open>md5_16\<close> is the helper \<open>hash\<close> of the module, the first 16
  hexadecimal digits of the MD5 digest, taken as a parameter.
\<close>

definition track_submission ::
  "(string \<Rightarrow> string) \<Rightarrow> db \<times> redis \<Rightarrow> request \<Rightarrow> string \<Rightarrow> response \<times> db \<times> redis" where
  "track_submission md5_16 st req token =
     (let d = fst st;
          ip = client_ip req;
          (ok, r) = rate_limit_check (snd st) (req_now req) (''submit_'' @ ip) 10 300
      in if \<not> ok then (Json [(''error'', JStr ''Too many submissions'')] 429, d, r)
         else
           case find_by_token d token of
             None \<Rightarrow> (Json [(''error'', JStr ''Invalid token'')] 404, d, r)
           | Some campaign_target \<Rightarrow>
               let d2 =
                 (case first_event d (ct_id campaign_target) EvSubmitted of
                    Some existing_submission \<Rightarrow> d
                  | None \<Rightarrow>
                      set_status
                        (add_event d (ct_id campaign_target) EvSubmitted (req_now req)
                           (Some ip) (req_user_agent req)
                           [(''form_data_received'', JBool True),
                            (''timestamp'', JTime (req_now req)),
                            (''user_agent_hash'',
                               JStr (md5_16 (case req_user_agent req of None \<Rightarrow> [] | Some ua \<Rightarrow> ua)))])
                        (ct_id campaign_target) Submitted);
                   d3 = log_audit d2 req ''PHISHING_SUBMITTED'' ''campaign_target''
                          (ct_id campaign_target)
                          [(''campaign_id'', JNum (int (ct_campaign_id campaign_target)))]
               in (Json [(''success'', JBool True),
                         (''message'', JStr ''Thank you for participating in this security awareness training.''),
                         (''next_step'', JStr ''education'')] 200, d3, r))"

text \<open>The three public triggers, and a sequence of them handled one after the other.\<close>

datatype trigger = Open | Click | Submit

definition handle ::
  "(string \<Rightarrow> string) \<Rightarrow> trigger \<Rightarrow> db \<times> redis \<Rightarrow> request \<Rightarrow> string \<Rightarrow> response \<times> db \<times> redis" where
  "handle md5_16 t st req token =
     (case t of
        Open \<Rightarrow> track_open st req token
      | Click \<Rightarrow> track_click st req token
      | Submit \<Rightarrow> track_submission md5_16 st req token)"

fun run ::
  "(string \<Rightarrow> string) \<Rightarrow> db \<times> redis \<Rightarrow> (trigger \<times> request \<times> string) list
     \<Rightarrow> response list \<times> db \<times> redis" where
  "run md5_16 st [] = ([], st)"
| "run md5_16 st ((t, req, token) # rest) =
     (let (resp, st') = handle md5_16 t st req token;
          (resps, st'') = run md5_16 st' rest
      in (resp # resps, st''))"

text \<open>The same trigger on the same token, once per request.\<close>

definition repeat_trigger ::
  "(string \<Rightarrow> string) \<Rightarrow> trigger \<Rightarrow> db \<times> redis \<Rightarrow> request list \<Rightarrow> string
     \<Rightarrow> response list \<times> db \<times> redis" where
  "repeat_trigger md5_16 t st reqs token = run md5_16 st (map (\<lambda>req. (t, req, token)) reqs)"

subsection \<open>Notions used to state the properties of the triggers\<close>

text \<open>The event a trigger records, and the limiter call each handler starts with.\<close>

fun kind_of :: "trigger \<Rightarrow> event_kind" where
  "kind_of Open = EvOpened"
| "kind_of Click = EvClicked"
| "kind_of Submit = EvSubmitted"

fun admit :: "trigger \<Rightarrow> redis \<Rightarrow> request \<Rightarrow> bool \<times> redis" where
  "admit Open r req = rate_limit_check r (req_now req) (''open_'' @ client_ip req) 30 60"
| "admit Click r req = rate_limit_check r (req_now req) (''click_'' @ client_ip req) 20 60"
| "admit Submit r req = rate_limit_check r (req_now req) (''submit_'' @ client_ip req) 10 300"

text \<open>Every request of the list passes the limiter, each on the counters the earlier ones left.\<close>

fun within_limits :: "trigger \<Rightarrow> redis \<Rightarrow> request list \<Rightarrow> bool" where
  "within_limits t r [] = True"
| "within_limits t r (req # reqs) =
     (fst (admit t r req) \<and> within_limits t (snd (admit t r req)) reqs)"

text \<open>The answer of a trigger that was not admitted, and of one whose token is unknown.\<close>

fun too_many :: "trigger \<Rightarrow> response" where
  "too_many Open = Empty 429"
| "too_many Click = Empty 429"
| "too_many Submit = Json [(''error'', JStr ''Too many submissions'')] 429"

fun not_found :: "trigger \<Rightarrow> response" where
  "not_found Open = Empty 404"
| "not_found Click = ErrorPage 404"
| "not_found Submit = Json [(''error'', JStr ''Invalid token'')] 404"

fun status_code :: "response \<Rightarrow> nat" where
  "status_code Pixel = 200"
| "status_code (Empty n) = n"
| "status_code (ErrorPage n) = n"
| "status_code (TrainingPage t c s) = 200"
| "status_code (Json j n) = n"

text \<open>The answer of an admitted trigger on a known token.\<close>

fun normal_response :: "trigger \<Rightarrow> db \<Rightarrow> campaign_target \<Rightarrow> string \<Rightarrow> response" where
  "normal_response Open d ct token = Pixel"
| "normal_response Click d ct token =
     (case get_campaign d (ct_campaign_id ct) of
        None \<Rightarrow> ErrorPage 404
      | Some campaign \<Rightarrow>
          (case get_template d (c_template_id campaign) of
             None \<Rightarrow> ErrorPage 500
           | Some tpl \<Rightarrow> TrainingPage (get_target d (ct_target_id ct)) campaign token))"
| "normal_response Submit d ct token =
     Json [(''success'', JBool True),
           (''message'', JStr ''Thank you for participating in this security awareness training.''),
           (''next_step'', JStr ''education'')] 200"

definition count_events :: "db \<Rightarrow> nat \<Rightarrow> event_kind \<Rightarrow> nat" where
  "count_events d cid k =
     length (filter (\<lambda>e. ev_campaign_target_id e = cid \<and> ev_event_type e = k) (email_events d))"

text \<open>The primary key of the table of campaign targets.\<close>

definition primary_key :: "db \<Rightarrow> bool" where
  "primary_key d = distinct (map ct_id (campaign_targets d))"

text \<open>
  A state in which a target that has a \<open>submitted\<close> event has the status \<open>submitted\<close>, as
  in every state the triggers reach from targets without events.
\<close>

definition submitted_recorded :: "db \<Rightarrow> bool" where
  "submitted_recorded d =
     list_all (\<lambda>e. ev_event_type e \<noteq> EvSubmitted
                  \<or> status_of d (ev_campaign_target_id e) \<in> {None, Some Submitted})
       (email_events d)"

text \<open>
  The forward-only rule as the specification words it: an open moves \<open>sent\<close> to
  \<open>opened\<close>, a click moves \<open>sent\<close> or \<open>opened\<close> to \<open>clicked\<close>, a submit gives
  \<open>submitted\<close>.
\<close>

fun forward_rule :: "trigger \<Rightarrow> target_status \<Rightarrow> target_status" where
  "forward_rule Open s = (if s = Sent then Opened else s)"
| "forward_rule Click s = (if s = Sent \<or> s = Opened then Clicked else s)"
| "forward_rule Submit s = Submitted"

section \<open>A small installation\<close>

text \<open>One campaign with one target whose mail was sent, a reachable Redis without counters.\<close>

definition ex_db :: db where
  "ex_db = \<lparr>templates = [\<lparr>tpl_id = 1, tpl_name = ''t'', tpl_subject = ''Hello {{first_name}}'', tpl_html_content = ''<p>{{click_url}}</p>''\<rparr>],
     campaigns = [\<lparr>c_id = 1, c_name = ''c'', c_template_id = 1, c_status = Active, c_consent_verified = True,
                   c_created_by = 1, c_started_at = Some 5, c_completed_at = None\<rparr>],
     targets = [\<lparr>t_id = 1, t_email = ''a@b.c'', t_first_name = Some ''A'', t_last_name = None, t_department = None\<rparr>],
     campaign_targets = [\<lparr>ct_id = 1, ct_campaign_id = 1, ct_target_id = 1, ct_status = Sent,
                          ct_unique_token = ''tok'', ct_sent_at = Some 6\<rparr>],
     email_events = [], audit_logs = []\<rparr>"

definition ex_redis :: redis where
  "ex_redis = \<lparr>redis_store = (\<lambda>k. None), redis_raises = (\<lambda>op. False)\<rparr>"

definition ex_req :: request where
  "ex_req = \<lparr>req_remote_addr = ''10.0.0.1'', req_x_forwarded_for = None, req_user_agent = Some ''UA'',
      req_referer = None, req_form = [(''password'', ''hunter2'')], req_user = None, req_now = 7\<rparr>"

text \<open>A Redis whose open counter of the client has reached the budget, and one that is down.\<close>

definition ex_redis_full :: redis where
  "ex_redis_full = \<lparr>redis_store = (\<lambda>k. if k = ''rate_limit:open_10.0.0.1'' then Some (30, Some 60) else None),
                     redis_raises = (\<lambda>op. False)\<rparr>"

definition ex_redis_down :: redis where
  "ex_redis_down = \<lparr>redis_store = (\<lambda>k. if k = ''rate_limit:open_10.0.0.1'' then Some (30, Some 60) else None),
                     redis_raises = (\<lambda>op. True)\<rparr>"

section \<open>Starting a campaign (routes/campaigns.py, send_campaign)\<close>

text \<open>
  The answer of the route: the 404 of \<open>get_or_404\<close>, the redirect of \<open>login_required\<close>,
  or a flashed message with its category and the endpoint redirected to. The last message
  is the one that names the campaign and the number of its targets.
\<close>

datatype flash_message =
    Flash string string
  | QueuedFor string nat
  | ErrorSending

datatype route_response = Abort404 | LoginRedirect | Redirect string flash_message

text \<open>
  \<open>queue_campaign_emails\<close> starts the dispatcher run of the campaign in the background;
  the runs started are the second component of the state.
\<close>

definition queue_campaign_emails :: "nat list \<Rightarrow> campaign \<Rightarrow> nat list" where
  "queue_campaign_emails q campaign = q @ [c_id campaign]"

definition set_campaign_active :: "db \<Rightarrow> nat \<Rightarrow> nat \<Rightarrow> db" where
  "set_campaign_active d i now =
     d\<lparr>campaigns :=
        map (\<lambda>c. if c_id c = i then c\<lparr>c_status := Active, c_started_at := Some now\<rparr> else c)
          (campaigns d)\<rparr>"

text \<open>\<open>consent_required\<close> is the setting \<open>CAMPAIGN_CONSENT_REQUIRED\<close>.\<close>

definition send_campaign ::
  "bool \<Rightarrow> db \<times> nat list \<Rightarrow> request \<Rightarrow> nat \<Rightarrow> route_response \<times> db \<times> nat list" where
  "send_campaign consent_required st req i =
     (let d = fst st; q = snd st in
      case req_user req of
        None \<Rightarrow> (LoginRedirect, d, q)
      | Some current_user \<Rightarrow>
          (case get_campaign d i of
             None \<Rightarrow> (Abort404, d, q)
           | Some campaign \<Rightarrow>
               if \<not> u_is_admin current_user \<and> c_created_by campaign \<noteq> u_id current_user
               then (Redirect ''campaigns.index'' (Flash ''Access denied.'' ''danger''), d, q)
               else if c_status campaign \<noteq> Draft
               then (Redirect ''campaigns.view''
                       (Flash ''Only draft campaigns can be sent.'' ''warning''), d, q)
               else
                 let targets = length (filter (\<lambda>ct. ct_campaign_id ct = i) (campaign_targets d)) in
                 if targets = 0
                 then (Redirect ''campaigns.view''
                         (Flash ''No targets assigned to this campaign.'' ''warning''), d, q)
                 else if consent_required \<and> \<not> c_consent_verified campaign
                 then (Redirect ''campaigns.view''
                         (Flash ''Consent must be verified before sending campaigns.'' ''danger''), d, q)
                 else
                   let q' = queue_campaign_emails q campaign;
                       d1 = set_campaign_active d i (req_now req);
                       d2 = log_audit d1 req ''CAMPAIGN_STARTED'' ''campaign'' (c_id campaign)
                              [(''target_count'', JNum (int targets))]
                   in (Redirect ''campaigns.view'' (QueuedFor (c_name campaign) targets), d2, q')))"

text \<open>The pending targets of a campaign, which the dispatcher sends to.\<close>

definition pending_targets :: "db \<Rightarrow> nat \<Rightarrow> campaign_target list" where
  "pending_targets d i =
     filter (\<lambda>ct. ct_campaign_id ct = i \<and> ct_status ct = Pending) (campaign_targets d)"

definition assigned_targets :: "db \<Rightarrow> nat \<Rightarrow> campaign_target list" where
  "assigned_targets d i = filter (\<lambda>ct. ct_campaign_id ct = i) (campaign_targets d)"

definition ex_admin :: user where
  "ex_admin = \<lparr>u_id = 1, u_is_admin = True\<rparr>"

text \<open>A draft campaign whose only target has submitted the form of a test mail.\<close>

definition ex_db_draft :: db where
  "ex_db_draft = ex_db\<lparr>campaigns := [\<lparr>c_id = 1, c_name = ''c'', c_template_id = 1, c_status = Draft,
                   c_consent_verified = True, c_created_by = 1, c_started_at = None,
                   c_completed_at = None\<rparr>],
     campaign_targets := [\<lparr>ct_id = 1, ct_campaign_id = 1, ct_target_id = 1, ct_status = Submitted,
                          ct_unique_token = ''tok'', ct_sent_at = None\<rparr>]\<rparr>"

section \<open>Templates (utils/helpers.py, utils/security.py)\<close>

text \<open>
  Strings are lists of characters with code points up to 255 (ASCII and the Latin-1
  supplement), a character being its code point. \<open>starts_with p s\<close> is \<open>s.startswith(p)\<close>,
  \<open>contains sub s\<close> is \<open>sub in s\<close>, \<open>str_replace old new s\<close> is \<open>s.replace(old, new)\<close>:
  the occurrences of \<open>old\<close> are taken from the left and do not overlap; an empty \<open>old\<close>
  matches before every character and at the end.
\<close>

fun starts_with :: "string \<Rightarrow> string \<Rightarrow> bool" where
  "starts_with [] s = True"
| "starts_with (p # ps) [] = False"
| "starts_with (p # ps) (c # cs) = (p = c \<and> starts_with ps cs)"

fun contains :: "string \<Rightarrow> string \<Rightarrow> bool" where
  "contains sub [] = (sub = [])"
| "contains sub (c # cs) = (starts_with sub (c # cs) \<or> contains sub cs)"

function str_replace :: "string \<Rightarrow> string \<Rightarrow> string \<Rightarrow> string" where
  "str_replace old new s =
     (if old = [] then new @ concat (map (\<lambda>c. c # new) s)
      else if s = [] then []
      else if starts_with old s then new @ str_replace old new (drop (length old) s)
      else hd s # str_replace old new (tl s))"
  by pat_completeness auto

termination
  by (relation "measure (\<lambda>(old, new, s). length s)") auto

declare str_replace.simps [simp del]

text \<open>\<open>render_template_content\<close>: one replacement per variable, in the order of the dictionary.\<close>

fun render_template_content :: "string \<Rightarrow> (string \<times> string) list \<Rightarrow> string" where
  "render_template_content content [] = content"
| "render_template_content content ((key, val) # variables) =
     (let placeholder = ''{{'' @ key @ ''}}''
      in render_template_content
           (if contains placeholder content then str_replace placeholder val content else content)
           variables)"

text \<open>
  \<open>re.findall(r'\{\{(\w+)\}\}', content)\<close>: at each position from the left, two opening
  braces, the longest run of word characters, not empty, and two closing braces; the
  search goes on behind a match. \<open>\w\<close> on a string matches the underscore and every
  character that is alphanumeric in Unicode: up to code point 255 the ASCII letters and
  digits, the letters 0xAA, 0xB5, 0xBA, 0xC0 to 0xD6, 0xD8 to 0xF6 and 0xF8 to 0xFF, and
  the numeric characters 0xB2, 0xB3, 0xB9, 0xBC, 0xBD and 0xBE.
\<close>

definition is_word_char :: "char \<Rightarrow> bool" where
  "is_word_char c =
     (c \<in> set ''abcdefghijklmnopqrstuvwxyzABCDEFGHIJKLMNOPQRSTUVWXYZ0123456789_''
      \<or> c \<in> set [CHR 0xAA, CHR 0xB2, CHR 0xB3, CHR 0xB5, CHR 0xB9, CHR 0xBA, CHR 0xBC, CHR 0xBD, CHR 0xBE]
      \<or> (0xC0 \<le> (of_char c :: nat) \<and> (of_char c :: nat) \<noteq> 0xD7 \<and> (of_char c :: nat) \<noteq> 0xF7))"







subsection \<open>Templates cut into literal text and placeholders\<close>














section \<open>Bulk dispatcher (services/email_service.py, EmailSender)\<close>

text \<open>
  The mail capability: whether \<open>mail.send\<close> of Flask-Mail goes through for a recipient,
  subject and body, and whether the direct SMTP fallback does. The settings read by the
  sender are \<open>BASE_URL\<close>, \<open>MAIL_DEFAULT_SENDER\<close> and \<open>MAX_EMAILS_PER_HOUR\<close>.
\<close>

record mailer =
  flask_mail_ok :: "string \<Rightarrow> string \<Rightarrow> string \<Rightarrow> bool"
  smtp_ok :: "string \<Rightarrow> string \<Rightarrow> string \<Rightarrow> bool"

record settings =
  cfg_base_url :: string
  cfg_mail_default_sender :: "string option"
  cfg_max_emails_per_hour :: nat

text \<open>The fields of an \<open>EmailSender\<close>, and the state of a run: database, clock, counts.\<close>

record sender =
  s_rate_limit :: nat
  s_sent_count :: nat
  s_start_time :: nat

record run_state =
  rs_db :: db
  rs_clock :: nat
  rs_sender :: sender
  rs_success_count :: nat
  rs_error_count :: nat

text \<open>
  \<open>generate_tracking_url\<close> (utils/helpers.py), for the URL types of the three triggers:
  without a base URL, or with an empty one, the configured \<open>BASE_URL\<close> is taken.
\<close>

definition generate_tracking_url :: "settings \<Rightarrow> string \<Rightarrow> trigger \<Rightarrow> string option \<Rightarrow> string" where
  "generate_tracking_url cfg campaign_target_id url_type base_url =
     (let base_url = (case base_url of
                        None \<Rightarrow> cfg_base_url cfg
                      | Some b \<Rightarrow> if b = [] then cfg_base_url cfg else b)
      in case url_type of
           Open \<Rightarrow> base_url @ ''/track/open/'' @ campaign_target_id
         | Click \<Rightarrow> base_url @ ''/track/click/'' @ campaign_target_id
         | Submit \<Rightarrow> base_url @ ''/track/submit/'' @ campaign_target_id)"

text \<open>\<open>str.upper\<close> on ASCII, and \<open>x or default\<close> on an optional string.\<close>

definition upper_char :: "char \<Rightarrow> char" where
  "upper_char c =
     (if c \<in> set ''abcdefghijklmnopqrstuvwxyz'' then char_of (of_char c - (32::nat)) else c)"

definition or_default :: "string option \<Rightarrow> string \<Rightarrow> string" where
  "or_default x dflt = (case x of None \<Rightarrow> dflt | Some s \<Rightarrow> if s = [] then dflt else s)"

definition prepare_template_variables ::
  "settings \<Rightarrow> campaign \<Rightarrow> target \<Rightarrow> campaign_target \<Rightarrow> (string \<times> string) list" where
  "prepare_template_variables cfg campaign target campaign_target =
     (let base_url = cfg_base_url cfg in
      [(''first_name'', or_default (t_first_name target) ''User''),
       (''last_name'', or_default (t_last_name target) []),
       (''email'', t_email target),
       (''department'', or_default (t_department target) ''Unknown''),
       (''company'', ''Your Company''),
       (''campaign_name'', c_name campaign),
       (''sender_name'', ''IT Security Team''),
       (''sender_email'', case cfg_mail_default_sender cfg of None \<Rightarrow> ''None'' | Some s \<Rightarrow> s),
       (''tracking_number'', map upper_char (take 8 (ct_unique_token campaign_target))),
       (''click_url'', generate_tracking_url cfg (ct_unique_token campaign_target) Click (Some base_url)),
       (''tracking_pixel'',
          ''<img src='' @ [CHR 0x22]
          @ generate_tracking_url cfg (ct_unique_token campaign_target) Open (Some base_url)
          @ [CHR 0x22] @ '' width='' @ [CHR 0x22] @ ''1'' @ [CHR 0x22]
          @ '' height='' @ [CHR 0x22] @ ''1'' @ [CHR 0x22]
          @ '' style='' @ [CHR 0x22] @ ''display:none;'' @ [CHR 0x22]
          @ '' alt='' @ [CHR 0x22] @ ''tracking pixel'' @ [CHR 0x22] @ ''>'')])"

text \<open>The banner put before every body; the warning sign is written as its UTF-8 bytes.\<close>

definition watermark :: string where
  "watermark =
     [CHR 0x0A] @ ''        <div style='' @ [CHR 0x22]
     @ ''background-color: #fff3cd; color: #856404; padding: 10px; margin: 20px 0; border: 1px solid #ffeaa7; border-radius: 4px; text-align: center; font-size: 12px;''
     @ [CHR 0x22] @ ''>'' @ [CHR 0x0A] @ ''            ''
     @ [CHR 0xE2, CHR 0x9A, CHR 0xA0, CHR 0xEF, CHR 0xB8, CHR 0x8F]
     @ '' <strong>SECURITY TRAINING TEST</strong> - This is a simulated phishing email for security awareness training.''
     @ [CHR 0x0A] @ ''        </div>'' @ [CHR 0x0A] @ ''        ''"

definition add_security_watermark :: "string \<Rightarrow> string" where
  "add_security_watermark content = watermark @ content"

definition send_email_direct_smtp :: "mailer \<Rightarrow> string \<Rightarrow> string \<Rightarrow> string \<Rightarrow> bool" where
  "send_email_direct_smtp m to_email subject html_content = smtp_ok m to_email subject html_content"

definition send_email_flask_mail :: "mailer \<Rightarrow> string \<Rightarrow> string \<Rightarrow> string \<Rightarrow> bool" where
  "send_email_flask_mail m to_email subject html_content =
     (if flask_mail_ok m to_email subject html_content then True
      else send_email_direct_smtp m to_email subject html_content)"

definition log_sent_event :: "db \<Rightarrow> nat \<Rightarrow> campaign \<Rightarrow> template \<Rightarrow> campaign_target \<Rightarrow> db" where
  "log_sent_event d now campaign tpl campaign_target =
     add_event d (ct_id campaign_target) EvSent now (Some ''127.0.0.1'') None
       [(''server_time'', JTime now), (''campaign_name'', JStr (c_name campaign)),
        (''template_name'', JStr (tpl_name tpl))]"

definition log_error_event :: "db \<Rightarrow> nat \<Rightarrow> campaign_target \<Rightarrow> string \<Rightarrow> db" where
  "log_error_event d now campaign_target error_message =
     add_event d (ct_id campaign_target) EvBounced now None None
       [(''error'', JStr error_message), (''timestamp'', JTime now)]"

text \<open>
  \<open>send_email_to_target\<close>. Every exception of the body is caught and answered False,
  but the handler formats \<open>target.email\<close>: when the target row is missing, the handler
  itself raises, and that exception leaves the method.
\<close>

definition send_email_to_target ::
  "mailer \<Rightarrow> settings \<Rightarrow> campaign \<Rightarrow> db \<Rightarrow> nat \<Rightarrow> sender \<Rightarrow> campaign_target
     \<Rightarrow> exn + (bool \<times> db \<times> sender)" where
  "send_email_to_target m cfg campaign d now sdr campaign_target =
     (case get_target d (ct_target_id campaign_target) of
        None \<Rightarrow> Inl (AttributeError ([CHR 0x27] @ ''NoneType'' @ [CHR 0x27]
                        @ '' object has no attribute '' @ [CHR 0x27] @ ''email'' @ [CHR 0x27]))
      | Some target \<Rightarrow>
          (case get_template d (c_template_id campaign) of
             None \<Rightarrow> Inr (False, d, sdr)
           | Some tpl \<Rightarrow>
               let variables = prepare_template_variables cfg campaign target campaign_target;
                   subject = render_template_content (tpl_subject tpl) variables;
                   html_content = render_template_content (tpl_html_content tpl) variables;
                   html_content = add_security_watermark html_content;
                   success = send_email_flask_mail m (t_email target) subject html_content
               in if success
                  then Inr (True, log_sent_event d now campaign tpl campaign_target,
                            sdr\<lparr>s_sent_count := s_sent_count sdr + 1\<rparr>)
                  else Inr (False, d, sdr)))"

definition check_rate_limit :: "nat \<Rightarrow> sender \<Rightarrow> bool \<times> sender" where
  "check_rate_limit now sdr =
     (let elapsed = now - s_start_time sdr in
      if elapsed < 3600 then (s_sent_count sdr < s_rate_limit sdr, sdr)
      else (True, sdr\<lparr>s_start_time := now, s_sent_count := 0\<rparr>))"

definition mark_sent :: "db \<Rightarrow> nat \<Rightarrow> nat \<Rightarrow> db" where
  "mark_sent d cid now =
     d\<lparr>campaign_targets :=
        map (\<lambda>ct. if ct_id ct = cid then ct\<lparr>ct_status := Sent, ct_sent_at := Some now\<rparr> else ct)
          (campaign_targets d)\<rparr>"

definition exn_message :: "exn \<Rightarrow> string" where
  "exn_message e = (case e of AttributeError s \<Rightarrow> s | RedisError op \<Rightarrow> ''redis'')"

text \<open>One turn of the loop of \<open>send_campaign_emails\<close>; \<open>time.sleep(60)\<close> moves the clock.\<close>

definition send_step :: "mailer \<Rightarrow> settings \<Rightarrow> campaign \<Rightarrow> run_state \<Rightarrow> campaign_target \<Rightarrow> run_state" where
  "send_step m cfg campaign rs campaign_target =
     (let (ok, snd1) = check_rate_limit (rs_clock rs) (rs_sender rs);
          now = (if ok then rs_clock rs else rs_clock rs + 60)
      in case send_email_to_target m cfg campaign (rs_db rs) now snd1 campaign_target of
           Inr (success, d1, snd2) \<Rightarrow>
             if success
             then rs\<lparr>rs_db := mark_sent d1 (ct_id campaign_target) now, rs_clock := now,
                     rs_sender := snd2, rs_success_count := rs_success_count rs + 1\<rparr>
             else rs\<lparr>rs_db := d1, rs_clock := now, rs_sender := snd2,
                     rs_error_count := rs_error_count rs + 1\<rparr>
         | Inl e \<Rightarrow>
             rs\<lparr>rs_db := log_error_event (rs_db rs) now campaign_target (exn_message e),
                rs_clock := now, rs_sender := snd1,
                rs_error_count := rs_error_count rs + 1\<rparr>)"

definition set_campaign_completed :: "db \<Rightarrow> nat \<Rightarrow> nat \<Rightarrow> db" where
  "set_campaign_completed d i now =
     d\<lparr>campaigns :=
        map (\<lambda>c. if c_id c = i then c\<lparr>c_status := Completed, c_completed_at := Some now\<rparr> else c)
          (campaigns d)\<rparr>"

text \<open>
  \<open>send_campaign_emails\<close>: the run over the targets that are pending when it starts. The
  commits, every ten mails and at the end, write what the session holds; the state here is
  what is written.
\<close>

definition send_campaign_emails ::
  "mailer \<Rightarrow> settings \<Rightarrow> request \<Rightarrow> run_state \<Rightarrow> nat \<Rightarrow> bool \<times> run_state" where
  "send_campaign_emails m cfg req rs0 campaign_id =
     (case get_campaign (rs_db rs0) campaign_id of
        None \<Rightarrow> (False, rs0)
      | Some campaign \<Rightarrow>
          let campaign_targets = pending_targets (rs_db rs0) campaign_id;
              total_targets = length campaign_targets;
              rs1 = fold (\<lambda>campaign_target rs. send_step m cfg campaign rs campaign_target)
                      campaign_targets (rs0\<lparr>rs_success_count := 0, rs_error_count := 0\<rparr>);
              d2 = (if rs_success_count rs1 + rs_error_count rs1 = total_targets
                       \<and> length (pending_targets (rs_db rs1) campaign_id) = 0
                    then set_campaign_completed (rs_db rs1) campaign_id (rs_clock rs1)
                    else rs_db rs1);
              d3 = log_audit d2 (req\<lparr>req_now := rs_clock rs1\<rparr>) ''CAMPAIGN_EMAILS_SENT'' ''campaign''
                     campaign_id
                     [(''total_targets'', JNum (int total_targets)),
                      (''success_count'', JNum (int (rs_success_count rs1))),
                      (''error_count'', JNum (int (rs_error_count rs1)))]
          in (rs_success_count rs1 > 0, rs1\<lparr>rs_db := d3\<rparr>))"

text \<open>
  Three pending targets of an active campaign: the mail to the first fails on both ways,
  the mail to the second goes through, the row of the third recipient is missing.
\<close>

definition ex_db_pending :: db where
  "ex_db_pending = ex_db\<lparr>
     targets := [\<lparr>t_id = 1, t_email = ''a@b.c'', t_first_name = Some ''A'', t_last_name = None, t_department = None\<rparr>,
                 \<lparr>t_id = 2, t_email = ''d@e.f'', t_first_name = None, t_last_name = None, t_department = None\<rparr>],
     campaign_targets := [\<lparr>ct_id = 1, ct_campaign_id = 1, ct_target_id = 1, ct_status = Pending,
                          ct_unique_token = ''tok1abcdef'', ct_sent_at = None\<rparr>,
                         \<lparr>ct_id = 2, ct_campaign_id = 1, ct_target_id = 2, ct_status = Pending,
                          ct_unique_token = ''tok2abcdef'', ct_sent_at = None\<rparr>,
                         \<lparr>ct_id = 3, ct_campaign_id = 1, ct_target_id = 99, ct_status = Pending,
                          ct_unique_token = ''tok3abcdef'', ct_sent_at = None\<rparr>]\<rparr>"

definition ex_mailer :: mailer where
  "ex_mailer = \<lparr>flask_mail_ok = (\<lambda>to_email subject html. False),
                smtp_ok = (\<lambda>to_email subject html. to_email = ''d@e.f'')\<rparr>"

definition ex_settings :: settings where
  "ex_settings = \<lparr>cfg_base_url = ''http://localhost:5000'', cfg_mail_default_sender = None,
                  cfg_max_emails_per_hour = 100\<rparr>"

definition ex_run :: run_state where
  "ex_run = \<lparr>rs_db = ex_db_pending, rs_clock = 10,
             rs_sender = \<lparr>s_rate_limit = 100, s_sent_count = 0, s_start_time = 10\<rparr>,
             rs_success_count = 0, rs_error_count = 0\<rparr>"

text \<open>
  The table after the recipient of the small installation has submitted the form and the
  dispatcher, which had loaded the row as pending, has then written its \<open>sent\<close>
  (\<open>campaign_target.status = 'sent'\<close> in \<open>send_campaign_emails\<close>, committed later).
\<close>

definition ex_db_overwritten :: db where
  "ex_db_overwritten =
     mark_sent (fst (snd (track_submission (take 16) (ex_db, ex_redis) ex_req ''tok''))) 1 8"

section \<open>Tokens (database/models.py, CampaignTarget.__init__)\<close>

text \<open>
  \<open>uuid.uuid4()\<close> of the standard library takes the sixteen bytes of \<open>os.urandom(16)\<close>
  as a 128-bit number, sets the variant and the version in it, and \<open>.hex\<close> prints the
  number as 32 hexadecimal digits.
\<close>

definition uuid4_int :: "128 word \<Rightarrow> 128 word" where
  "uuid4_int b =
     (let i = b AND NOT (push_bit 48 0xc000);
          i = i OR push_bit 48 0x8000;
          i = i AND NOT (push_bit 64 0xf000);
          i = i OR push_bit 76 4
      in i)"

definition hex_digit :: "nat \<Rightarrow> char" where
  "hex_digit n = ''0123456789abcdef'' ! (n mod 16)"

definition hex32 :: "128 word \<Rightarrow> string" where
  "hex32 w = map (\<lambda>i. hex_digit (unat (drop_bit (4 * i) w AND 0xf))) (rev [0..<32])"

definition uuid4_hex :: "128 word \<Rightarrow> string" where
  "uuid4_hex b = hex32 (uuid4_int b)"

text \<open>
  The constructor: a token passed by the caller is kept, otherwise one is generated from
  the random bytes \<open>rnd\<close>.
\<close>

definition new_campaign_target ::
  "128 word \<Rightarrow> nat \<Rightarrow> nat \<Rightarrow> nat \<Rightarrow> string option \<Rightarrow> campaign_target" where
  "new_campaign_target rnd new_id campaign_id target_id unique_token =
     \<lparr>ct_id = new_id, ct_campaign_id = campaign_id, ct_target_id = target_id, ct_status = Pending,
      ct_unique_token =
        (case unique_token of
           None \<Rightarrow> uuid4_hex rnd
         | Some t \<Rightarrow> if t = [] then uuid4_hex rnd else t),
      ct_sent_at = None\<rparr>"

text \<open>
  Attaching a target to a campaign (routes/campaigns.py, \<open>handle_manual_target\<close> and
  \<open>handle_csv_import\<close>): nothing is added when the pair exists; the commit fails on the
  unique constraint of the token column, and the handler rolls back.
\<close>

datatype attach_result = Attached | AlreadyAssigned | IntegrityError

definition next_campaign_target_id :: "db \<Rightarrow> nat" where
  "next_campaign_target_id d = Suc (fold max (map ct_id (campaign_targets d)) 0)"

definition attach_target :: "128 word \<Rightarrow> db \<Rightarrow> nat \<Rightarrow> nat \<Rightarrow> attach_result \<times> db" where
  "attach_target rnd d campaign_id target_id =
     (case find (\<lambda>ct. ct_campaign_id ct = campaign_id \<and> ct_target_id ct = target_id)
             (campaign_targets d) of
        Some existing \<Rightarrow> (AlreadyAssigned, d)
      | None \<Rightarrow>
          let campaign_target =
                new_campaign_target rnd (next_campaign_target_id d) campaign_id target_id None
          in if ct_unique_token campaign_target \<in> set (map ct_unique_token (campaign_targets d))
             then (IntegrityError, d)
             else (Attached, d\<lparr>campaign_targets := campaign_targets d @ [campaign_target]\<rparr>))"

text \<open>The bits of the random number that the token keeps: all but the six that are set.\<close>

definition free_bits :: "128 word" where
  "free_bits = NOT (push_bit 48 0xc000 OR push_bit 64 0xf000)"

text \<open>The tokens of the table, row by row.\<close>

definition token_list :: "db \<Rightarrow> string list" where
  "token_list d = map ct_unique_token (campaign_targets d)"

section \<open>Metrics (utils/helpers.py, calculate_campaign_metrics)\<close>

subsection \<open>Python floats\<close>

text \<open>
  A float is the rational number it stands for. \<open>fl x\<close> is the double nearest to a
  positive \<open>x\<close>, ties going to the even mantissa (53 bits; the counts of a database keep
  every value far inside the range of the exponent). Division of integers and
  multiplication of floats give the nearest double of the exact result;
  \<open>round(x, 2)\<close> gives the nearest double of the decimal with two places nearest to \<open>x\<close>,
  ties going to the even last digit.
\<close>

function bit_length :: "int \<Rightarrow> nat" where
  "bit_length n = (if n \<le> 0 then 0 else Suc (bit_length (n div 2)))"
  by pat_completeness auto

termination
  by (relation "measure nat") auto

declare bit_length.simps [simp del]

definition pow2 :: "int \<Rightarrow> rat" where
  "pow2 e = (if 0 \<le> e then 2 ^ nat e else 1 / 2 ^ nat (- e))"

definition round_half_even :: "rat \<Rightarrow> int" where
  "round_half_even x =
     (let f = \<lfloor>x\<rfloor>; r = x - of_int f
      in if r < 1 / 2 then f else if r > 1 / 2 then f + 1 else if even f then f else f + 1)"

definition exponent :: "rat \<Rightarrow> int" where
  "exponent x =
     (let (p, q) = quotient_of x;
          k = int (bit_length p) - int (bit_length q)
      in if x < pow2 k then k - 1 else k)"

definition fl :: "rat \<Rightarrow> rat" where
  "fl x =
     (if x \<le> 0 then 0
      else let ulp = pow2 (exponent x - 52)
           in of_int (round_half_even (x / ulp)) * ulp)"

definition py_truediv :: "nat \<Rightarrow> nat \<Rightarrow> rat" where
  "py_truediv a b = fl (of_nat a / of_nat b)"

definition py_mul :: "rat \<Rightarrow> rat \<Rightarrow> rat" where
  "py_mul x y = fl (x * y)"

definition py_round2 :: "rat \<Rightarrow> rat" where
  "py_round2 x = fl (of_int (round_half_even (x * 100)) / 100)"

subsection \<open>The queries\<close>

text \<open>
  The engine is made from \<open>SQLALCHEMY_DATABASE_URI\<close> (config.py), the environment's
  \<open>DATABASE_URL\<close> or else the SQLite file; the dialect is the scheme of the URI up to
  \<open>+\<close> or \<open>:\<close>.
\<close>

definition SQLALCHEMY_DATABASE_URI :: "string option \<Rightarrow> string" where
  "SQLALCHEMY_DATABASE_URI database_url = or_default database_url ''sqlite:///phishing_platform.db''"

definition dialect :: "string \<Rightarrow> string" where
  "dialect uri = takeWhile (\<lambda>c. c \<noteq> CHR ''+'' \<and> c \<noteq> CHR '':'') uri"

text \<open>
  \<open>EmailEvent.query.join(CampaignTarget)\<close>: the events with the row of their campaign
  target. \<open>.distinct(EmailEvent.campaign_target_id).count()\<close> counts the rows of the query
  made distinct. The PostgreSQL dialect renders the column as DISTINCT ON and keeps one row
  for each campaign target. Every other dialect, SQLite among them, leaves the column out
  and renders SELECT DISTINCT over the columns of the event, which merges equal rows only.
\<close>

definition joined :: "db \<Rightarrow> (email_event \<times> campaign_target) list" where
  "joined d =
     [(e, ct). e \<leftarrow> email_events d, ct \<leftarrow> campaign_targets d, ev_campaign_target_id e = ct_id ct]"

definition event_rows :: "db \<Rightarrow> nat \<Rightarrow> event_kind \<Rightarrow> (email_event \<times> campaign_target) list" where
  "event_rows d campaign_id k =
     filter (\<lambda>(e, ct). ct_campaign_id ct = campaign_id \<and> ev_event_type e = k) (joined d)"

definition count_distinct_targets :: "string \<Rightarrow> (email_event \<times> campaign_target) list \<Rightarrow> nat" where
  "count_distinct_targets uri rows =
     (if dialect uri = ''postgresql''
      then length (remdups (map (\<lambda>(e, ct). ev_campaign_target_id e) rows))
      else length (remdups (map fst rows)))"

record metrics =
  total_targets :: nat
  emails_sent :: nat
  unique_opens :: nat
  unique_clicks :: nat
  unique_submissions :: nat
  open_rate :: rat
  click_rate :: rat
  submission_rate :: rat
  delivery_rate :: rat

definition calculate_campaign_metrics :: "string \<Rightarrow> db \<Rightarrow> nat \<Rightarrow> metrics option" where
  "calculate_campaign_metrics uri d campaign_id =
     (case get_campaign d campaign_id of
        None \<Rightarrow> None
      | Some campaign \<Rightarrow>
          let total = length (filter (\<lambda>ct. ct_campaign_id ct = campaign_id) (campaign_targets d));
              sent_events = length (event_rows d campaign_id EvSent);
              open_events = count_distinct_targets uri (event_rows d campaign_id EvOpened);
              click_events = count_distinct_targets uri (event_rows d campaign_id EvClicked);
              submit_events = count_distinct_targets uri (event_rows d campaign_id EvSubmitted);
              open_rate = (if sent_events > 0
                           then py_mul (py_truediv open_events sent_events) 100 else 0);
              click_rate = (if open_events > 0
                            then py_mul (py_truediv click_events open_events) 100 else 0);
              submission_rate = (if click_events > 0
                                 then py_mul (py_truediv submit_events click_events) 100 else 0)
          in Some \<lparr>total_targets = total,
                   emails_sent = sent_events,
                   unique_opens = open_events,
                   unique_clicks = click_events,
                   unique_submissions = submit_events,
                   open_rate = py_round2 open_rate,
                   click_rate = py_round2 click_rate,
                   submission_rate = py_round2 submission_rate,
                   delivery_rate =
                     py_round2 (if total > 0 then py_mul (py_truediv sent_events total) 100 else 0)\<rparr>)"

subsection \<open>The metrics as the specification defines them\<close>

text \<open>
  A rate is numerator / denominator * 100 rounded to two places, 0 for a denominator 0, in
  the arithmetic of Python; a campaign target counts for a kind of event when an event of
  the kind is recorded for it.
\<close>

definition funnel_rate :: "nat \<Rightarrow> nat \<Rightarrow> rat" where
  "funnel_rate n d = (if d = 0 then 0 else py_round2 (py_mul (py_truediv n d) 100))"

definition in_campaign :: "db \<Rightarrow> nat \<Rightarrow> nat \<Rightarrow> bool" where
  "in_campaign d campaign_id cid =
     (\<exists>ct \<in> set (campaign_targets d). ct_id ct = cid \<and> ct_campaign_id ct = campaign_id)"

definition engaged_targets :: "db \<Rightarrow> nat \<Rightarrow> event_kind \<Rightarrow> nat set" where
  "engaged_targets d campaign_id k =
     ev_campaign_target_id `
       {e \<in> set (email_events d). ev_event_type e = k \<and> in_campaign d campaign_id (ev_campaign_target_id e)}"

text \<open>
  Ten targets of one campaign: a mail sent to each, opened by six (one of them twice over),
  clicked by three, submitted by one.
\<close>

definition ex_event :: "nat \<Rightarrow> event_kind \<Rightarrow> nat \<Rightarrow> email_event" where
  "ex_event i k cid =
     \<lparr>ev_id = i, ev_campaign_target_id = cid, ev_event_type = k, ev_timestamp = 20,
      ev_ip_address = None, ev_user_agent = None, ev_metadata = None\<rparr>"

definition ex_db_funnel :: db where
  "ex_db_funnel = ex_db\<lparr>
     campaign_targets :=
       map (\<lambda>i. \<lparr>ct_id = i, ct_campaign_id = 1, ct_target_id = i, ct_status = Sent,
                  ct_unique_token = replicate i (CHR ''x''), ct_sent_at = Some 6\<rparr>) [1..<11],
     email_events :=
       map (\<lambda>i. ex_event i EvSent i) [1..<11]
       @ map (\<lambda>i. ex_event (10 + i) EvOpened i) [1..<7]
       @ [ex_event 17 EvOpened 1]
       @ map (\<lambda>i. ex_event (17 + i) EvClicked i) [1..<4]
       @ [ex_event 21 EvSubmitted 1]\<rparr>"

section \<open>Verification\<close>

subsection \<open>Tables, lookups and the handlers\<close>


lemma add_event_targets [simp]: "campaign_targets (add_event d cid k ts ip ua md) = campaign_targets d"
  by (simp add: add_event_def)

lemma log_audit_targets [simp]: "campaign_targets (log_audit d req a rt ri de) = campaign_targets d"
  by (simp add: log_audit_def)

lemma log_audit_events [simp]: "email_events (log_audit d req a rt ri de) = email_events d"
  by (simp add: log_audit_def)

lemma set_status_events [simp]: "email_events (set_status d cid s) = email_events d"
  by (simp add: set_status_def)

lemma set_status_ids [simp]: "map ct_id (campaign_targets (set_status d cid s)) = map ct_id (campaign_targets d)"
  by (simp add: set_status_def comp_def)

lemma status_of_add_event [simp]: "status_of (add_event d cid k ts ip ua md) c = status_of d c"
  by (simp add: status_of_def get_campaign_target_def)

lemma status_of_log_audit [simp]: "status_of (log_audit d req a rt ri de) c = status_of d c"
  by (simp add: status_of_def get_campaign_target_def)

lemma find_map_status:
  "find (\<lambda>ct. ct_id ct = c) (map (\<lambda>ct. if ct_id ct = cid then ct\<lparr>ct_status := s\<rparr> else ct) xs) =
   (if c = cid then map_option (\<lambda>ct. ct\<lparr>ct_status := s\<rparr>) (find (\<lambda>ct. ct_id ct = c) xs)
    else find (\<lambda>ct. ct_id ct = c) xs)"
  by (induction xs) auto

lemma status_of_set_status:
  "status_of (set_status d cid s) c =
     (if c = cid then map_option (\<lambda>_. s) (status_of d c) else status_of d c)"
  by (simp add: status_of_def get_campaign_target_def set_status_def find_map_status option.map_comp comp_def)

lemma find_pk:
  "distinct (map ct_id xs) \<Longrightarrow> find P xs = Some ct \<Longrightarrow> find (\<lambda>x. ct_id x = ct_id ct) xs = Some ct"
proof (induction xs)
  case Nil
  then show ?case by simp
next
  case (Cons x xs)
  show ?case
  proof (cases "P x")
    case True
    with Cons.prems show ?thesis by simp
  next
    case False
    with Cons.prems have f: "find P xs = Some ct" by simp
    then have "ct \<in> set xs" by (auto simp: find_Some_iff)
    with Cons.prems have "ct_id x \<noteq> ct_id ct" by auto
    with Cons f show ?thesis by simp
  qed
qed

lemma status_of_found:
  "distinct (map ct_id (campaign_targets d)) \<Longrightarrow> find_by_token d token = Some ct
   \<Longrightarrow> status_of d (ct_id ct) = Some (ct_status ct)"
  by (simp add: status_of_def get_campaign_target_def find_by_token_def find_pk)

lemma find_app: "find P (xs @ ys) = (case find P xs of Some x \<Rightarrow> Some x | None \<Rightarrow> find P ys)"
  by (induction xs) auto

lemma find_map_gen: "find P (map f xs) = map_option f (find (\<lambda>x. P (f x)) xs)"
  by (induction xs) auto

lemma set_status_tokens [simp]:
  "find_by_token (set_status d cid s) token = map_option (\<lambda>ct. if ct_id ct = cid then ct\<lparr>ct_status := s\<rparr> else ct) (find_by_token d token)"
  by (simp add: find_by_token_def set_status_def find_map_gen if_distrib cong: if_cong)

lemma add_event_tokens [simp]: "find_by_token (add_event d cid k ts ip ua md) token = find_by_token d token"
  by (simp add: find_by_token_def)

lemma log_audit_tokens [simp]: "find_by_token (log_audit d req a rt ri de) token = find_by_token d token"
  by (simp add: find_by_token_def)

lemma first_event_set_status [simp]: "first_event (set_status d cid s) c k = first_event d c k"
  by (simp add: first_event_def)

lemma first_event_log_audit [simp]: "first_event (log_audit d req a rt ri de) c k = first_event d c k"
  by (simp add: first_event_def)

lemma first_event_add_event:
  "first_event (add_event d cid k ts ip ua md) c k' =
     (case first_event d c k' of Some e \<Rightarrow> Some e
      | None \<Rightarrow> if c = cid \<and> k' = k then Some \<lparr>ev_id = next_event_id d, ev_campaign_target_id = cid, ev_event_type = k,
          ev_timestamp = ts, ev_ip_address = ip, ev_user_agent = ua, ev_metadata = None\<rparr> else None)"
  by (auto simp: first_event_def add_event_def find_app split: option.splits)

lemma handle_redis: "snd (snd (handle h t (d, r) req token)) = snd (admit t r req)"
  by (cases t)
     (auto simp: handle_def track_open_def track_click_def track_submission_def Let_def
           split: prod.splits option.splits)

lemma handle_rejected:
  "\<not> fst (admit t r req) \<Longrightarrow> handle h t (d, r) req token = (too_many t, d, snd (admit t r req))"
  by (cases t)
     (auto simp: handle_def track_open_def track_click_def track_submission_def Let_def
           split: prod.splits option.splits)

lemma handle_unknown:
  "fst (admit t r req) \<Longrightarrow> find_by_token d token = None
   \<Longrightarrow> handle h t (d, r) req token = (not_found t, d, snd (admit t r req))"
  by (cases t)
     (auto simp: handle_def track_open_def track_click_def track_submission_def Let_def
           split: prod.splits option.splits)

lemma rank_forward_rule: "rank s \<le> rank (forward_rule t s)"
  by (cases t; cases s) simp_all

lemma status_of_set_same:
  "status_of d cid = Some s \<Longrightarrow> status_of (set_status d cid s) c = status_of d c"
  by (auto simp: status_of_set_status)

lemma handle_repeat:
  assumes "fst (admit t r req)" "find_by_token d token = Some ct"
          "first_event d (ct_id ct) (kind_of t) = Some e"
  shows "campaign_targets (fst (snd (handle h t (d, r) req token))) = campaign_targets d"
        "email_events (fst (snd (handle h t (d, r) req token))) = email_events d"
  using assms
  by (cases t;
      auto simp: handle_def track_open_def track_click_def track_submission_def Let_def send_tracking_pixel_def
           split: prod.splits option.splits)+

lemma handle_first_status:
  assumes "fst (admit t r req)" "find_by_token d token = Some ct"
          "first_event d (ct_id ct) (kind_of t) = None"
          "status_of d (ct_id ct) = Some (ct_status ct)"
  shows "status_of (fst (snd (handle h t (d, r) req token))) cid =
           (if cid = ct_id ct then map_option (\<lambda>_. forward_rule t (ct_status ct)) (status_of d cid)
            else status_of d cid)"
  using assms
  by (cases t;
      auto simp: handle_def track_open_def track_click_def track_submission_def Let_def status_of_set_status
           split: prod.splits option.splits)

lemma status_of_cong: "campaign_targets d' = campaign_targets d \<Longrightarrow> status_of d' c = status_of d c"
  by (simp add: status_of_def get_campaign_target_def)

lemma handle_ids:
  "map ct_id (campaign_targets (fst (snd (handle h t (d, r) req token)))) = map ct_id (campaign_targets d)"
  by (cases t;
      auto simp: handle_def track_open_def track_click_def track_submission_def Let_def
           split: prod.splits option.splits)

lemma set_status_token_list [simp]:
  "map ct_unique_token (campaign_targets (set_status d cid s)) = map ct_unique_token (campaign_targets d)"
  by (simp add: set_status_def comp_def if_distrib cong: if_cong)

lemma handle_token_list:
  "map ct_unique_token (campaign_targets (fst (snd (handle h t (d, r) req token))))
     = map ct_unique_token (campaign_targets d)"
  by (cases t;
      auto simp: handle_def track_open_def track_click_def track_submission_def Let_def
           split: prod.splits option.splits)

lemma handle_primary_key: "primary_key d \<Longrightarrow> primary_key (fst (snd (handle h t (d, r) req token)))"
  by (simp add: primary_key_def handle_ids)

lemma handle_step:
  assumes pk: "primary_key d" and st: "status_of d cid = Some s"
  shows "status_of (fst (snd (handle h t (d, r) req token))) cid = Some s
       \<or> status_of (fst (snd (handle h t (d, r) req token))) cid = Some (forward_rule t s)"
proof (cases "fst (admit t r req)")
  case False
  then show ?thesis using st by (simp add: handle_rejected)
next
  case adm: True
  show ?thesis
  proof (cases "find_by_token d token")
    case None
    then show ?thesis using st adm by (simp add: handle_unknown)
  next
    case (Some ct)
    have found: "status_of d (ct_id ct) = Some (ct_status ct)"
      using pk Some by (simp add: primary_key_def status_of_found)
    show ?thesis
    proof (cases "first_event d (ct_id ct) (kind_of t)")
      case None
      show ?thesis
        using st found by (auto simp: handle_first_status[OF adm Some None found])
    next
      case (Some e)
      from handle_repeat(1)[OF adm \<open>find_by_token d token = Some ct\<close> Some]
      have "status_of (fst (snd (handle h t (d, r) req token))) cid = status_of d cid"
        by (rule status_of_cong)
      then show ?thesis using st by simp
    qed
  qed
qed

lemma handle_monotone:
  assumes "primary_key d" "status_of d cid = Some s"
  shows "\<exists>s'. status_of (fst (snd (handle h t (d, r) req token))) cid = Some s' \<and> rank s \<le> rank s'"
  using handle_step[OF assms, of h t r req token] rank_forward_rule[of s t] by auto

lemma run_monotone:
  "primary_key d \<Longrightarrow> status_of d cid = Some s
   \<Longrightarrow> \<exists>s'. status_of (fst (snd (run h (d, r) ts))) cid = Some s' \<and> rank s \<le> rank s'"
proof (induction ts arbitrary: d r s)
  case Nil
  then show ?case by simp
next
  case (Cons a ts)
  obtain t req token where a: "a = (t, req, token)" by (cases a)
  obtain resp d1 r1 where h1: "handle h t (d, r) req token = (resp, d1, r1)" by (cases "handle h t (d, r) req token")
  from handle_monotone[OF Cons.prems, of h t r req token] h1
  obtain s1 where s1: "status_of d1 cid = Some s1" "rank s \<le> rank s1" by auto
  from handle_primary_key[OF Cons.prems(1), of h t r req token] h1 have pk1: "primary_key d1" by simp
  from Cons.IH[OF pk1 s1(1), of r1] obtain s' where
    "status_of (fst (snd (run h (d1, r1) ts))) cid = Some s'" "rank s1 \<le> rank s'" by auto
  with s1 show ?case by (auto simp: a h1 split: prod.splits)
qed

lemma submitted_recorded_iff:
  "submitted_recorded d \<longleftrightarrow>
     (\<forall>e\<in>set (email_events d). ev_event_type e = EvSubmitted
         \<longrightarrow> status_of d (ev_campaign_target_id e) \<in> {None, Some Submitted})"
  by (auto simp: submitted_recorded_def list_all_iff)

lemma submitted_recorded_cong:
  "campaign_targets d' = campaign_targets d \<Longrightarrow> email_events d' = email_events d
   \<Longrightarrow> submitted_recorded d' = submitted_recorded d"
  by (simp add: submitted_recorded_def status_of_def get_campaign_target_def)

lemma handle_first_events:
  assumes "fst (admit t r req)" "find_by_token d token = Some ct"
          "first_event d (ct_id ct) (kind_of t) = None"
  shows "\<exists>e'. email_events (fst (snd (handle h t (d, r) req token))) = email_events d @ [e']
            \<and> ev_campaign_target_id e' = ct_id ct \<and> ev_event_type e' = kind_of t"
  using assms
  by (cases t;
      auto simp: handle_def track_open_def track_click_def track_submission_def Let_def add_event_def
           split: prod.splits option.splits)

lemma forward_rule_Submitted [simp]: "forward_rule t Submitted = Submitted"
  by (cases t) simp_all

lemma handle_submitted_recorded:
  assumes pk: "primary_key d" and inv: "submitted_recorded d"
  shows "submitted_recorded (fst (snd (handle h t (d, r) req token)))"
proof (cases "fst (admit t r req)")
  case False
  then show ?thesis using inv by (simp add: handle_rejected)
next
  case adm: True
  show ?thesis
  proof (cases "find_by_token d token")
    case None
    then show ?thesis using inv adm by (simp add: handle_unknown)
  next
    case (Some ct)
    note tok = this
    have found: "status_of d (ct_id ct) = Some (ct_status ct)"
      using pk Some by (simp add: primary_key_def status_of_found)
    show ?thesis
    proof (cases "first_event d (ct_id ct) (kind_of t)")
      case None
      let ?d' = "fst (snd (handle h t (d, r) req token))"
      from handle_first_events[OF adm tok None, of h] obtain e' where
        ev: "email_events ?d' = email_events d @ [e']"
        and e': "ev_campaign_target_id e' = ct_id ct" "ev_event_type e' = kind_of t"
        by blast
      note st = handle_first_status[OF adm tok None found, of h]
      show ?thesis
        unfolding submitted_recorded_iff
      proof (intro ballI impI)
        fix e assume e: "e \<in> set (email_events ?d')" and sub: "ev_event_type e = EvSubmitted"
        show "status_of ?d' (ev_campaign_target_id e) \<in> {None, Some Submitted}"
        proof (cases "e = e'")
          case True
          with sub e' have "forward_rule t (ct_status ct) = Submitted" by (cases t) simp_all
          with True e' found st[of "ct_id ct"] show ?thesis by simp
        next
          case False
          with e ev have "e \<in> set (email_events d)" by simp
          with inv sub have old: "status_of d (ev_campaign_target_id e) \<in> {None, Some Submitted}"
            by (simp add: submitted_recorded_iff)
          show ?thesis
          proof (cases "ev_campaign_target_id e = ct_id ct")
            case True
            with old found have "ct_status ct = Submitted" by simp
            with True found show ?thesis by (simp add: st)
          next
            case False
            with old show ?thesis by (simp add: st)
          qed
        qed
      qed
    next
      case (Some e)
      from handle_repeat[OF adm tok Some, of h]
      have "submitted_recorded (fst (snd (handle h t (d, r) req token))) = submitted_recorded d"
        by (rule submitted_recorded_cong)
      with inv show ?thesis by simp
    qed
  qed
qed

lemma submit_sets_submitted:
  assumes pk: "primary_key d" and inv: "submitted_recorded d"
      and adm: "fst (admit Submit r req)" and tok: "find_by_token d token = Some ct"
  shows "status_of (fst (snd (track_submission h (d, r) req token))) (ct_id ct) = Some Submitted"
proof -
  have found: "status_of d (ct_id ct) = Some (ct_status ct)"
    using pk tok by (simp add: primary_key_def status_of_found)
  have hd: "track_submission h (d, r) req token = handle h Submit (d, r) req token"
    by (simp add: handle_def)
  show ?thesis
  proof (cases "first_event d (ct_id ct) (kind_of Submit)")
    case None
    from handle_first_status[OF adm tok None found, of h "ct_id ct"] found
    show ?thesis by (simp add: hd)
  next
    case (Some e)
    then have "e \<in> set (email_events d)" "ev_event_type e = EvSubmitted" "ev_campaign_target_id e = ct_id ct"
      by (auto simp: first_event_def find_Some_iff)
    with inv found have "ct_status ct = Submitted"
      by (auto simp: submitted_recorded_iff)
    moreover from handle_repeat(1)[OF adm tok Some, of h]
    have "status_of (fst (snd (handle h Submit (d, r) req token))) (ct_id ct) = status_of d (ct_id ct)"
      by (rule status_of_cong)
    ultimately show ?thesis using found by (simp add: hd)
  qed
qed

lemma run_invariants:
  "primary_key d \<Longrightarrow> submitted_recorded d
   \<Longrightarrow> primary_key (fst (snd (run h (d, r) ts))) \<and> submitted_recorded (fst (snd (run h (d, r) ts)))"
proof (induction ts arbitrary: d r)
  case Nil
  then show ?case by simp
next
  case (Cons a ts)
  obtain t req token where a: "a = (t, req, token)" by (cases a)
  obtain resp d1 r1 where h1: "handle h t (d, r) req token = (resp, d1, r1)" by (cases "handle h t (d, r) req token")
  from handle_primary_key[OF Cons.prems(1), of h t r req token] h1 have pk1: "primary_key d1" by simp
  from handle_submitted_recorded[OF Cons.prems, of h t r req token] h1 have inv1: "submitted_recorded d1" by simp
  from Cons.IH[OF pk1 inv1, of r1] show ?case by (auto simp: a h1 split: prod.splits)
qed

subsection \<open>Forward-only status\<close>

text \<open>
  C1 as stated fails. A submit does not set the status whatever the state: it writes
  \<open>submitted\<close> only together with the first \<open>submitted\<close> event of the target. Where
  that event is recorded and the status is \<open>sent\<close>, as after a write of the dispatcher
  over a submission, an admitted submit on the known token leaves the status \<open>sent\<close>.
\<close>

theorem submit_status_counterexample:
  "primary_key ex_db_overwritten
   \<and> status_of ex_db_overwritten 1 = Some Sent
   \<and> map ev_event_type (email_events ex_db_overwritten) = [EvSubmitted]
   \<and> fst (admit Submit ex_redis ex_req)
   \<and> map_option ct_id (find_by_token ex_db_overwritten ''tok'') = Some 1
   \<and> status_of (fst (snd (track_submission (take 16) (ex_db_overwritten, ex_redis) ex_req ''tok''))) 1
       = Some Sent
   \<and> forward_rule Submit Sent = Submitted"
  by code_simp

text \<open>
  C1 (amended). On a table with a primary key, whatever sequence of open, click and submit
  triggers is handled, the status of every campaign target only moves forward in the order
  pending, sent, opened, clicked, submitted. A single open changes a status only from
  sent, to opened; a click only from sent or opened, to clicked; a submit leaves it or
  makes it submitted. An admitted submit on a known token makes the target submitted when
  no submitted event is recorded for it yet, and leaves its status as it is otherwise; in
  the states in which a target with a submitted event is submitted, which the triggers
  keep, every such submit leaves the target submitted. An open on a clicked target leaves
  it clicked.
\<close>

theorem forward_only_status:
  assumes pk: "primary_key d"
  shows "(\<forall>cid s. status_of d cid = Some s \<longrightarrow>
            (\<exists>s'. status_of (fst (snd (run h (d, r) ts))) cid = Some s' \<and> rank s \<le> rank s'))
       \<and> (\<forall>cid s. status_of d cid = Some s \<longrightarrow>
            status_of (fst (snd (track_open (d, r) req token))) cid = Some s
            \<or> s = Sent \<and> status_of (fst (snd (track_open (d, r) req token))) cid = Some Opened)
       \<and> (\<forall>cid s. status_of d cid = Some s \<longrightarrow>
            status_of (fst (snd (track_click (d, r) req token))) cid = Some s
            \<or> (s = Sent \<or> s = Opened) \<and> status_of (fst (snd (track_click (d, r) req token))) cid = Some Clicked)
       \<and> (\<forall>cid s. status_of d cid = Some s \<longrightarrow>
            status_of (fst (snd (track_submission h (d, r) req token))) cid = Some s
            \<or> status_of (fst (snd (track_submission h (d, r) req token))) cid = Some Submitted)
       \<and> (\<forall>ct. fst (admit Submit r req) \<and> find_by_token d token = Some ct \<longrightarrow>
            status_of (fst (snd (track_submission h (d, r) req token))) (ct_id ct)
              = (if first_event d (ct_id ct) EvSubmitted = None then Some Submitted
                 else status_of d (ct_id ct)))
       \<and> (\<forall>ct. submitted_recorded d
               \<and> fst (admit Submit (snd (snd (run h (d, r) ts))) req)
               \<and> find_by_token (fst (snd (run h (d, r) ts))) token = Some ct \<longrightarrow>
            status_of (fst (snd (track_submission h (snd (run h (d, r) ts)) req token))) (ct_id ct)
              = Some Submitted)
       \<and> (\<forall>cid. status_of d cid = Some Clicked \<longrightarrow>
            status_of (fst (snd (track_open (d, r) req token))) cid = Some Clicked)"
proof -
  have hO: "track_open (d, r) req token = handle h Open (d, r) req token"
   and hC: "track_click (d, r) req token = handle h Click (d, r) req token"
   and hS: "track_submission h (d, r) req token = handle h Submit (d, r) req token"
    by (simp_all add: handle_def)
  have a: "\<forall>cid s. status_of d cid = Some s \<longrightarrow>
            (\<exists>s'. status_of (fst (snd (run h (d, r) ts))) cid = Some s' \<and> rank s \<le> rank s')"
    using run_monotone[OF pk] by blast
  have b: "\<forall>cid s. status_of d cid = Some s \<longrightarrow>
            status_of (fst (snd (track_open (d, r) req token))) cid = Some s
            \<or> s = Sent \<and> status_of (fst (snd (track_open (d, r) req token))) cid = Some Opened"
  proof (intro allI impI)
    fix cid s assume "status_of d cid = Some s"
    from handle_step[OF pk this, of h Open r req token]
    show "status_of (fst (snd (track_open (d, r) req token))) cid = Some s
            \<or> s = Sent \<and> status_of (fst (snd (track_open (d, r) req token))) cid = Some Opened"
      unfolding hO by (auto split: if_splits)
  qed
  have c: "\<forall>cid s. status_of d cid = Some s \<longrightarrow>
            status_of (fst (snd (track_click (d, r) req token))) cid = Some s
            \<or> (s = Sent \<or> s = Opened) \<and> status_of (fst (snd (track_click (d, r) req token))) cid = Some Clicked"
  proof (intro allI impI)
    fix cid s assume "status_of d cid = Some s"
    from handle_step[OF pk this, of h Click r req token]
    show "status_of (fst (snd (track_click (d, r) req token))) cid = Some s
            \<or> (s = Sent \<or> s = Opened) \<and> status_of (fst (snd (track_click (d, r) req token))) cid = Some Clicked"
      unfolding hC by (auto split: if_splits)
  qed
  have e: "\<forall>cid s. status_of d cid = Some s \<longrightarrow>
            status_of (fst (snd (track_submission h (d, r) req token))) cid = Some s
            \<or> status_of (fst (snd (track_submission h (d, r) req token))) cid = Some Submitted"
  proof (intro allI impI)
    fix cid s assume "status_of d cid = Some s"
    from handle_step[OF pk this, of h Submit r req token]
    show "status_of (fst (snd (track_submission h (d, r) req token))) cid = Some s
            \<or> status_of (fst (snd (track_submission h (d, r) req token))) cid = Some Submitted"
      unfolding hS by auto
  qed
  have x: "\<forall>ct. fst (admit Submit r req) \<and> find_by_token d token = Some ct \<longrightarrow>
            status_of (fst (snd (track_submission h (d, r) req token))) (ct_id ct)
              = (if first_event d (ct_id ct) EvSubmitted = None then Some Submitted
                 else status_of d (ct_id ct))"
  proof (intro allI impI, elim conjE)
    fix ct
    assume adm: "fst (admit Submit r req)" and tok: "find_by_token d token = Some ct"
    have found: "status_of d (ct_id ct) = Some (ct_status ct)"
      using pk tok by (simp add: primary_key_def status_of_found)
    show "status_of (fst (snd (track_submission h (d, r) req token))) (ct_id ct)
              = (if first_event d (ct_id ct) EvSubmitted = None then Some Submitted
                 else status_of d (ct_id ct))"
    proof (cases "first_event d (ct_id ct) (kind_of Submit)")
      case None
      from handle_first_status[OF adm tok None found, of h "ct_id ct"] found None
      show ?thesis by (simp add: hS)
    next
      case (Some ev)
      from handle_repeat(1)[OF adm tok Some, of h]
      have "status_of (fst (snd (handle h Submit (d, r) req token))) (ct_id ct) = status_of d (ct_id ct)"
        by (rule status_of_cong)
      with Some show ?thesis by (simp add: hS)
    qed
  qed
  have f: "\<forall>ct. submitted_recorded d
               \<and> fst (admit Submit (snd (snd (run h (d, r) ts))) req)
               \<and> find_by_token (fst (snd (run h (d, r) ts))) token = Some ct \<longrightarrow>
            status_of (fst (snd (track_submission h (snd (run h (d, r) ts)) req token))) (ct_id ct)
              = Some Submitted"
  proof (intro allI impI, elim conjE)
    fix ct
    assume inv: "submitted_recorded d"
       and adm: "fst (admit Submit (snd (snd (run h (d, r) ts))) req)"
       and tok: "find_by_token (fst (snd (run h (d, r) ts))) token = Some ct"
    from run_invariants[OF pk inv, of h r ts]
    have "primary_key (fst (snd (run h (d, r) ts)))" "submitted_recorded (fst (snd (run h (d, r) ts)))"
      by simp_all
    from submit_sets_submitted[OF this adm tok, of h]
    show "status_of (fst (snd (track_submission h (snd (run h (d, r) ts)) req token))) (ct_id ct)
              = Some Submitted" by simp
  qed
  have g: "\<forall>cid. status_of d cid = Some Clicked \<longrightarrow>
            status_of (fst (snd (track_open (d, r) req token))) cid = Some Clicked"
    using b by auto
  from a b c e x f g show ?thesis by blast
qed

theorem forward_only_status_witness:
  "primary_key ex_db \<and> submitted_recorded ex_db \<and> status_of ex_db 1 = Some Sent
   \<and> status_of (fst (snd (run (take 16) (ex_db, ex_redis) [(Click, ex_req, ''tok''), (Open, ex_req, ''tok'')]))) 1
        = Some Clicked
   \<and> status_of (fst (snd (track_submission (take 16)
          (snd (run (take 16) (ex_db, ex_redis) [(Click, ex_req, ''tok''), (Open, ex_req, ''tok'')]))
          ex_req ''tok''))) 1 = Some Submitted
   \<and> fst (admit Submit ex_redis ex_req)
   \<and> first_event ex_db 1 EvSubmitted = None
   \<and> status_of (fst (snd (track_submission (take 16) (ex_db, ex_redis) ex_req ''tok''))) 1 = Some Submitted"
proof -
  have pk: "primary_key ex_db" by code_simp
  have inv: "submitted_recorded ex_db" by code_simp
  have st: "status_of ex_db 1 = Some Sent" by code_simp
  have run: "status_of (fst (snd (run (take 16) (ex_db, ex_redis) [(Click, ex_req, ''tok''), (Open, ex_req, ''tok'')]))) 1
        = Some Clicked" by code_simp
  have adm: "fst (admit Submit (snd (snd (run (take 16) (ex_db, ex_redis) [(Click, ex_req, ''tok''), (Open, ex_req, ''tok'')]))) ex_req)"
    by code_simp
  have tok: "map_option ct_id (find_by_token (fst (snd (run (take 16) (ex_db, ex_redis) [(Click, ex_req, ''tok''), (Open, ex_req, ''tok'')]))) ''tok'') = Some 1"
    by code_simp
  from tok obtain ct where ct: "find_by_token (fst (snd (run (take 16) (ex_db, ex_redis) [(Click, ex_req, ''tok''), (Open, ex_req, ''tok'')]))) ''tok'' = Some ct"
      "ct_id ct = 1"
    unfolding map_option_eq_Some by blast
  note T = forward_only_status[OF pk, of "take 16" ex_redis "[(Click, ex_req, ''tok''), (Open, ex_req, ''tok'')]" ex_req "''tok''"]
  from T inv adm ct(1)
  have "status_of (fst (snd (track_submission (take 16)
          (snd (run (take 16) (ex_db, ex_redis) [(Click, ex_req, ''tok''), (Open, ex_req, ''tok'')]))
          ex_req ''tok''))) (ct_id ct) = Some Submitted"
    by blast
  with ct(2) have s2: "status_of (fst (snd (track_submission (take 16)
          (snd (run (take 16) (ex_db, ex_redis) [(Click, ex_req, ''tok''), (Open, ex_req, ''tok'')]))
          ex_req ''tok''))) 1 = Some Submitted" by simp
  have adm0: "fst (admit Submit ex_redis ex_req)" by code_simp
  have fe: "first_event ex_db 1 EvSubmitted = None" by code_simp
  have tok0: "map_option ct_id (find_by_token ex_db ''tok'') = Some 1" by code_simp
  then obtain ct0 where ct0: "find_by_token ex_db ''tok'' = Some ct0" "ct_id ct0 = 1"
    unfolding map_option_eq_Some by blast
  from T adm0 ct0(1)
  have "status_of (fst (snd (track_submission (take 16) (ex_db, ex_redis) ex_req ''tok''))) (ct_id ct0)
          = (if first_event ex_db (ct_id ct0) EvSubmitted = None then Some Submitted
             else status_of ex_db (ct_id ct0))" by blast
  with ct0(2) fe have s1: "status_of (fst (snd (track_submission (take 16) (ex_db, ex_redis) ex_req ''tok''))) 1
          = Some Submitted" by simp
  from pk inv st run s2 adm0 fe s1 show ?thesis by (simp only: simp_thms)
qed

subsection \<open>Answers of the handlers\<close>

lemma get_campaign_simps [simp]:
  "get_campaign (add_event d cid k ts ip ua md) i = get_campaign d i"
  "get_campaign (set_status d cid s) i = get_campaign d i"
  "get_campaign (log_audit d req a rt ri de) i = get_campaign d i"
  by (simp_all add: get_campaign_def add_event_def set_status_def log_audit_def)

lemma get_template_simps [simp]:
  "get_template (add_event d cid k ts ip ua md) i = get_template d i"
  "get_template (set_status d cid s) i = get_template d i"
  "get_template (log_audit d req a rt ri de) i = get_template d i"
  by (simp_all add: get_template_def add_event_def set_status_def log_audit_def)

lemma get_target_simps [simp]:
  "get_target (add_event d cid k ts ip ua md) i = get_target d i"
  "get_target (set_status d cid s) i = get_target d i"
  "get_target (log_audit d req a rt ri de) i = get_target d i"
  by (simp_all add: get_target_def add_event_def set_status_def log_audit_def)

lemma handle_response:
  assumes "fst (admit t r req)" "find_by_token d token = Some ct"
  shows "fst (handle h t (d, r) req token) = normal_response t d ct token"
  using assms
  by (cases t;
      auto simp: handle_def track_open_def track_click_def track_submission_def Let_def send_tracking_pixel_def
           split: prod.splits option.splits)

lemma handle_side_tables:
  "campaigns (fst (snd (handle h t (d, r) req token))) = campaigns d"
  "templates (fst (snd (handle h t (d, r) req token))) = templates d"
  "targets (fst (snd (handle h t (d, r) req token))) = targets d"
  by (cases t;
      auto simp: handle_def track_open_def track_click_def track_submission_def Let_def
                 add_event_def set_status_def log_audit_def
           split: prod.splits option.splits)+

lemma normal_response_cong:
  assumes "campaigns d' = campaigns d" "templates d' = templates d" "targets d' = targets d"
          "ct_campaign_id ct' = ct_campaign_id ct" "ct_target_id ct' = ct_target_id ct"
  shows "normal_response t d' ct' token = normal_response t d ct token"
proof -
  have "get_campaign d' = get_campaign d" "get_template d' = get_template d" "get_target d' = get_target d"
    using assms by (simp_all add: fun_eq_iff get_campaign_def get_template_def get_target_def)
  with assms show ?thesis by (cases t) (simp_all cong: option.case_cong)
qed

lemma handle_keeps_token:
  assumes "find_by_token d token = Some ct"
  shows "\<exists>ct'. find_by_token (fst (snd (handle h t (d, r) req token))) token = Some ct'
           \<and> ct_id ct' = ct_id ct \<and> ct_campaign_id ct' = ct_campaign_id ct
           \<and> ct_target_id ct' = ct_target_id ct"
  using assms
  by (cases t;
      auto simp: handle_def track_open_def track_click_def track_submission_def Let_def
           split: prod.splits option.splits)

lemma find_by_token_cong:
  "campaign_targets d' = campaign_targets d \<Longrightarrow> find_by_token d' token = find_by_token d token"
  by (simp add: find_by_token_def)

lemma first_event_cong:
  "email_events d' = email_events d \<Longrightarrow> first_event d' c k = first_event d c k"
  by (simp add: first_event_def)

lemma repeat_trigger_Cons:
  "repeat_trigger h t (d, r) (req # reqs) token =
      (fst (handle h t (d, r) req token)
         # fst (repeat_trigger h t (fst (snd (handle h t (d, r) req token)), snd (admit t r req)) reqs token),
       snd (repeat_trigger h t (fst (snd (handle h t (d, r) req token)), snd (admit t r req)) reqs token))"
proof -
  obtain resp d1 r1 where h1: "handle h t (d, r) req token = (resp, d1, r1)"
    by (cases "handle h t (d, r) req token")
  with handle_redis[of h t d r req token] have "r1 = snd (admit t r req)" by simp
  with h1 show ?thesis by (simp add: repeat_trigger_def split_beta)
qed

lemma repeat_stable:
  "within_limits t r reqs \<Longrightarrow> find_by_token d token = Some ct
   \<Longrightarrow> first_event d (ct_id ct) (kind_of t) = Some e
   \<Longrightarrow> email_events (fst (snd (repeat_trigger h t (d, r) reqs token))) = email_events d
     \<and> campaign_targets (fst (snd (repeat_trigger h t (d, r) reqs token))) = campaign_targets d
     \<and> fst (repeat_trigger h t (d, r) reqs token) = replicate (length reqs) (normal_response t d ct token)"
proof (induction reqs arbitrary: d r)
  case Nil
  then show ?case by (simp add: repeat_trigger_def)
next
  case (Cons req reqs)
  let ?d1 = "fst (snd (handle h t (d, r) req token))"
  let ?r1 = "snd (admit t r req)"
  from Cons.prems(1) have adm: "fst (admit t r req)" and lim: "within_limits t ?r1 reqs" by simp_all
  note rep = handle_repeat[OF adm Cons.prems(2,3), of h]
  have tok1: "find_by_token ?d1 token = Some ct"
    using find_by_token_cong[OF rep(1)] Cons.prems(2) by simp
  have ev1: "first_event ?d1 (ct_id ct) (kind_of t) = Some e"
    using first_event_cong[OF rep(2)] Cons.prems(3) by simp
  have nr: "normal_response t ?d1 ct token = normal_response t d ct token"
    by (rule normal_response_cong) (simp_all add: handle_side_tables)
  from Cons.IH[OF lim tok1 ev1] rep nr
  have IH: "email_events (fst (snd (repeat_trigger h t (?d1, ?r1) reqs token))) = email_events d"
     "campaign_targets (fst (snd (repeat_trigger h t (?d1, ?r1) reqs token))) = campaign_targets d"
     "fst (repeat_trigger h t (?d1, ?r1) reqs token) = replicate (length reqs) (normal_response t d ct token)"
    by simp_all
  show ?case
    unfolding repeat_trigger_Cons using IH handle_response[OF adm Cons.prems(2), of h] by simp
qed

lemma count_zero_iff: "count_events d c k = 0 \<longleftrightarrow> first_event d c k = None"
  by (auto simp: count_events_def first_event_def find_None_iff filter_empty_conv)

lemma count_events_cong: "email_events d' = email_events d \<Longrightarrow> count_events d' c k = count_events d c k"
  by (simp add: count_events_def)

subsection \<open>Idempotent triggers\<close>

text \<open>
  C2. For a known token and requests that all pass the limiter, handling the same trigger
  once per request leaves the events and the campaign targets, hence every status, as the
  first request alone leaves them; the target then has exactly one event of the
  trigger's kind when it had none before (and as many as before otherwise). Every request
  gets the normal answer of the trigger, for an open the tracking pixel.
\<close>

theorem trigger_idempotent:
  assumes tok: "find_by_token d token = Some ct" and lim: "within_limits t r (req # reqs)"
  shows "email_events (fst (snd (repeat_trigger h t (d, r) (req # reqs) token)))
           = email_events (fst (snd (handle h t (d, r) req token)))
       \<and> campaign_targets (fst (snd (repeat_trigger h t (d, r) (req # reqs) token)))
           = campaign_targets (fst (snd (handle h t (d, r) req token)))
       \<and> (\<forall>cid. status_of (fst (snd (repeat_trigger h t (d, r) (req # reqs) token))) cid
           = status_of (fst (snd (handle h t (d, r) req token))) cid)
       \<and> count_events (fst (snd (repeat_trigger h t (d, r) (req # reqs) token))) (ct_id ct) (kind_of t)
           = (if count_events d (ct_id ct) (kind_of t) = 0 then 1
              else count_events d (ct_id ct) (kind_of t))
       \<and> fst (repeat_trigger h t (d, r) (req # reqs) token)
           = replicate (Suc (length reqs)) (normal_response t d ct token)
       \<and> (t = Open \<longrightarrow> fst (repeat_trigger h t (d, r) (req # reqs) token)
           = replicate (Suc (length reqs)) Pixel)"
proof -
  let ?d1 = "fst (snd (handle h t (d, r) req token))"
  let ?r1 = "snd (admit t r req)"
  let ?dn = "fst (snd (repeat_trigger h t (d, r) (req # reqs) token))"
  from lim have adm: "fst (admit t r req)" and lim1: "within_limits t ?r1 reqs" by simp_all
  from handle_keeps_token[OF tok, of h t r req] obtain ct' where
    tok1: "find_by_token ?d1 token = Some ct'" and same: "ct_id ct' = ct_id ct"
      "ct_campaign_id ct' = ct_campaign_id ct" "ct_target_id ct' = ct_target_id ct" by blast
  have nr: "normal_response t ?d1 ct' token = normal_response t d ct token"
    by (rule normal_response_cong) (simp_all add: handle_side_tables same)
  have ev1: "\<exists>e. first_event ?d1 (ct_id ct') (kind_of t) = Some e"
    and cnt: "count_events ?d1 (ct_id ct) (kind_of t)
           = (if count_events d (ct_id ct) (kind_of t) = 0 then 1
              else count_events d (ct_id ct) (kind_of t))"
  proof -
    show "\<exists>e. first_event ?d1 (ct_id ct') (kind_of t) = Some e"
    proof (cases "first_event d (ct_id ct) (kind_of t)")
      case None
      from handle_first_events[OF adm tok None, of h] obtain e' where
        "email_events ?d1 = email_events d @ [e']" "ev_campaign_target_id e' = ct_id ct"
        "ev_event_type e' = kind_of t" by blast
      with None show ?thesis by (simp add: first_event_def find_app same)
    next
      case (Some e)
      from first_event_cong[OF handle_repeat(2)[OF adm tok Some, of h]] Some
      show ?thesis by (simp add: same)
    qed
    show "count_events ?d1 (ct_id ct) (kind_of t)
           = (if count_events d (ct_id ct) (kind_of t) = 0 then 1
              else count_events d (ct_id ct) (kind_of t))"
    proof (cases "first_event d (ct_id ct) (kind_of t)")
      case None
      from handle_first_events[OF adm tok None, of h] obtain e' where
        e': "email_events ?d1 = email_events d @ [e']" "ev_campaign_target_id e' = ct_id ct"
        "ev_event_type e' = kind_of t" by blast
      from None have "count_events d (ct_id ct) (kind_of t) = 0" by (simp add: count_zero_iff)
      moreover from this e' have "count_events ?d1 (ct_id ct) (kind_of t) = 1"
        by (simp add: count_events_def)
      ultimately show ?thesis by simp
    next
      case (Some e)
      then have "count_events d (ct_id ct) (kind_of t) \<noteq> 0" by (simp add: count_zero_iff)
      with count_events_cong[OF handle_repeat(2)[OF adm tok Some, of h]]
      show ?thesis by simp
    qed
  qed
  from ev1 obtain e where e: "first_event ?d1 (ct_id ct') (kind_of t) = Some e" by blast
  from repeat_stable[OF lim1 tok1 e, of h] nr
  have st: "email_events (fst (snd (repeat_trigger h t (?d1, ?r1) reqs token))) = email_events ?d1"
     "campaign_targets (fst (snd (repeat_trigger h t (?d1, ?r1) reqs token))) = campaign_targets ?d1"
     "fst (repeat_trigger h t (?d1, ?r1) reqs token) = replicate (length reqs) (normal_response t d ct token)"
    by simp_all
  have A: "email_events ?dn = email_events ?d1" and B: "campaign_targets ?dn = campaign_targets ?d1"
    unfolding repeat_trigger_Cons using st by simp_all
  have C: "fst (repeat_trigger h t (d, r) (req # reqs) token)
           = replicate (Suc (length reqs)) (normal_response t d ct token)"
    unfolding repeat_trigger_Cons using st handle_response[OF adm tok, of h] by simp
  have D: "\<forall>cid. status_of ?dn cid = status_of ?d1 cid"
    using status_of_cong[OF B] by simp
  have E: "count_events ?dn (ct_id ct) (kind_of t)
           = (if count_events d (ct_id ct) (kind_of t) = 0 then 1
              else count_events d (ct_id ct) (kind_of t))"
    using count_events_cong[OF A] cnt by simp
  have F: "t = Open \<longrightarrow> fst (repeat_trigger h t (d, r) (req # reqs) token)
           = replicate (Suc (length reqs)) Pixel"
    using C by auto
  from A B C D E F show ?thesis by blast
qed

theorem trigger_idempotent_witness:
  "find_by_token ex_db ''tok'' = Some (hd (campaign_targets ex_db))
   \<and> within_limits Open ex_redis [ex_req, ex_req, ex_req]
   \<and> count_events (fst (snd (repeat_trigger (take 16) Open (ex_db, ex_redis) [ex_req, ex_req, ex_req] ''tok'')))
        (ct_id (hd (campaign_targets ex_db))) (kind_of Open) = 1
   \<and> fst (repeat_trigger (take 16) Open (ex_db, ex_redis) [ex_req, ex_req, ex_req] ''tok'')
        = [Pixel, Pixel, Pixel]"
proof -
  have tok: "find_by_token ex_db ''tok'' = Some (hd (campaign_targets ex_db))" by code_simp
  have lim: "within_limits Open ex_redis (ex_req # [ex_req, ex_req])" by code_simp
  have c0: "count_events ex_db (ct_id (hd (campaign_targets ex_db))) (kind_of Open) = 0" by code_simp
  from trigger_idempotent[OF tok lim, of "take 16"] c0 tok lim
  show ?thesis by (simp add: numeral_3_eq_3 del: within_limits.simps)
qed

subsection \<open>Unknown tokens\<close>

text \<open>
  C4 as stated fails. The limiter runs before the token is looked up: a client over its budget gets the answer
  429 for a token that was never issued, not 404.
\<close>

theorem unknown_token_counterexample:
  "find_by_token ex_db ''never-issued'' = None
   \<and> fst (track_open (ex_db, ex_redis_full) ex_req ''never-issued'') = Empty 429
   \<and> fst (track_open (ex_db, ex_redis_full) ex_req ''never-issued'') \<noteq> Empty 404"
  by code_simp

lemma status_code_simps [simp]: "status_code (not_found t) = 404" "status_code (too_many t) = 429"
  by (cases t; simp)+

text \<open>
  C4 (amended). For a token no campaign target has, each trigger leaves the database as it
  is (no event, no status change) and answers not-found (404) when the limiter admits the
  request, 429 when it does not. The answer and the counters are the same for every
  database that does not know the token.
\<close>

theorem unknown_token:
  assumes "find_by_token d token = None"
  shows "handle h t (d, r) req token
           = (if fst (admit t r req) then not_found t else too_many t, d, snd (admit t r req))
       \<and> status_code (fst (handle h t (d, r) req token)) = (if fst (admit t r req) then 404 else 429)
       \<and> (find_by_token d' token = None \<longrightarrow>
            fst (handle h t (d', r) req token) = fst (handle h t (d, r) req token)
          \<and> snd (snd (handle h t (d', r) req token)) = snd (snd (handle h t (d, r) req token)))"
  using assms by (cases "fst (admit t r req)") (simp_all add: handle_rejected handle_unknown)

theorem unknown_token_witness:
  "find_by_token ex_db ''never-issued'' = None
   \<and> fst (admit Open ex_redis ex_req)
   \<and> fst (track_open (ex_db, ex_redis) ex_req ''never-issued'') = Empty 404
   \<and> fst (snd (track_open (ex_db, ex_redis) ex_req ''never-issued'')) = ex_db"
proof -
  have u: "find_by_token ex_db ''never-issued'' = None" by code_simp
  have a: "fst (admit Open ex_redis ex_req)" by code_simp
  from unknown_token[OF u, of "take 16" Open ex_redis ex_req ex_db] a u
  show ?thesis by (simp add: handle_def)
qed

subsection \<open>Submissions\<close>

text \<open>
  C7. The result of a form submission (answer, database with the audit table, counters)
  does not depend on the submitted form fields, so nothing of them is stored or logged.
  But the event a submission stores has no metadata at all: the dictionary with the
  received flag, the time and the digest of the user agent is handed to the constructor
  under the keyword \<open>metadata\<close> and does not reach the column, which stays NULL, as it
  does for the first submission of the recipient of the small installation.
\<close>

theorem submission_metadata_not_stored:
  "track_submission h (d, r) (req\<lparr>req_form := f1\<rparr>) token
     = track_submission h (d, r) (req\<lparr>req_form := f2\<rparr>) token
   \<and> (email_events (fst (snd (track_submission h (d, r) req token))) = email_events d
      \<or> (\<exists>ct. find_by_token d token = Some ct
            \<and> email_events (fst (snd (track_submission h (d, r) req token)))
                = email_events d @
                  [\<lparr>ev_id = next_event_id d, ev_campaign_target_id = ct_id ct,
                    ev_event_type = EvSubmitted, ev_timestamp = req_now req,
                    ev_ip_address = Some (client_ip req), ev_user_agent = req_user_agent req,
                    ev_metadata = None\<rparr>]))
   \<and> req_form ex_req = [(''password'', ''hunter2'')]
   \<and> email_events (fst (snd (track_submission (take 16) (ex_db, ex_redis) ex_req ''tok'')))
       = [\<lparr>ev_id = 1, ev_campaign_target_id = 1, ev_event_type = EvSubmitted, ev_timestamp = 7,
           ev_ip_address = Some ''10.0.0.1'', ev_user_agent = Some ''UA'', ev_metadata = None\<rparr>]
   \<and> status_of (fst (snd (track_submission (take 16) (ex_db, ex_redis) ex_req ''tok''))) 1
       = Some Submitted"
proof -
  have a: "track_submission h (d, r) (req\<lparr>req_form := f1\<rparr>) token
     = track_submission h (d, r) (req\<lparr>req_form := f2\<rparr>) token"
  proof -
    have ip: "\<And>f. client_ip (req\<lparr>req_form := f\<rparr>) = client_ip req"
      by (simp add: client_ip_def split: option.splits)
    have au: "\<And>f d a rt ri de. log_audit d (req\<lparr>req_form := f\<rparr>) a rt ri de = log_audit d req a rt ri de"
      by (simp add: log_audit_def ip)
    have "\<And>f. track_submission h (d, r) (req\<lparr>req_form := f\<rparr>) token = track_submission h (d, r) req token"
      unfolding track_submission_def ip au
      by (simp add: Let_def split: prod.splits option.splits)
    then show ?thesis by simp
  qed
  have b: "email_events (fst (snd (track_submission h (d, r) req token))) = email_events d
      \<or> (\<exists>ct. find_by_token d token = Some ct
            \<and> email_events (fst (snd (track_submission h (d, r) req token)))
                = email_events d @
                  [\<lparr>ev_id = next_event_id d, ev_campaign_target_id = ct_id ct,
                    ev_event_type = EvSubmitted, ev_timestamp = req_now req,
                    ev_ip_address = Some (client_ip req), ev_user_agent = req_user_agent req,
                    ev_metadata = None\<rparr>])"
    by (auto simp: track_submission_def Let_def add_event_def split: prod.splits option.splits)
  have c: "req_form ex_req = [(''password'', ''hunter2'')]" by code_simp
  have e: "email_events (fst (snd (track_submission (take 16) (ex_db, ex_redis) ex_req ''tok'')))
       = [\<lparr>ev_id = 1, ev_campaign_target_id = 1, ev_event_type = EvSubmitted, ev_timestamp = 7,
           ev_ip_address = Some ''10.0.0.1'', ev_user_agent = Some ''UA'', ev_metadata = None\<rparr>]"
    by code_simp
  have f: "status_of (fst (snd (track_submission (take 16) (ex_db, ex_redis) ex_req ''tok''))) 1
       = Some Submitted" by code_simp
  from a b c e f show ?thesis by blast
qed

subsection \<open>The limiter without Redis\<close>

lemma rate_limit_check_raises:
  "rate_limit_try r now ident limit window = Inl e \<Longrightarrow> rate_limit_check r now ident limit window = (True, r)"
  by (simp add: rate_limit_check_def)

lemma rate_limit_try_down:
  "redis_raises r OpFromUrl \<or> redis_raises r OpGet \<Longrightarrow> \<exists>e. rate_limit_try r now ident limit window = Inl e"
  by (auto simp: rate_limit_try_def redis_get_def)

lemma rate_limit_check_False:
  "rate_limit_check r now ident limit window = (False, r') \<longleftrightarrow>
     r' = r \<and> \<not> redis_raises r OpFromUrl \<and> \<not> redis_raises r OpGet
     \<and> (\<exists>c. live now (redis_store r (''rate_limit:'' @ ident)) = Some c \<and> limit \<le> c)"
  by (auto simp: rate_limit_check_def rate_limit_try_def redis_get_def redis_incr_def redis_set_ex_def Let_def
           split: sum.splits option.splits if_splits)

lemma rate_limit_check_rejects:
  "\<not> fst (rate_limit_check r now ident limit window) \<longleftrightarrow>
     \<not> redis_raises r OpFromUrl \<and> \<not> redis_raises r OpGet
     \<and> (\<exists>c. live now (redis_store r (''rate_limit:'' @ ident)) = Some c \<and> limit \<le> c)"
  using rate_limit_check_False[of r now ident limit window]
  by (cases "rate_limit_check r now ident limit window") auto

lemma handle_429: "status_code (fst (handle h t (d, r) req token)) = 429 \<longleftrightarrow> \<not> fst (admit t r req)"
proof (cases "fst (admit t r req)")
  case False
  then show ?thesis by (simp add: handle_rejected)
next
  case adm: True
  show ?thesis
  proof (cases "find_by_token d token")
    case None
    with adm show ?thesis by (simp add: handle_unknown)
  next
    case (Some ct)
    from handle_response[OF adm Some, of h] adm show ?thesis
      by (cases t) (simp_all split: option.splits)
  qed
qed

lemma rate_limit_check_fresh:
  assumes "\<not> redis_raises r OpFromUrl" "\<not> redis_raises r OpGet" "\<not> redis_raises r OpSet"
          "live now (redis_store r (''rate_limit:'' @ ident)) = None"
  shows "rate_limit_check r now ident limit window
           = (True, r\<lparr>redis_store := (redis_store r)
                      ((''rate_limit:'' @ ident) := Some (1, Some (now + window)))\<rparr>)"
  using assms
  by (simp add: rate_limit_check_def rate_limit_try_def redis_get_def redis_set_ex_def)

text \<open>
  C10. When a call of the Redis client raises, \<open>rate_limit_check\<close> answers True and
  leaves the counters; with Redis unreachable no trigger answers 429. A trigger answers
  429 only with Redis answering, exactly when the live counter of the client has reached
  30 (open), 20 (click) or 10 (submit); a first request sets the counter to expire after
  60, 60 and 300 seconds.
\<close>

theorem redis_failure_admits:
  "(\<forall>e. rate_limit_try r now ident limit window = Inl e \<longrightarrow>
        rate_limit_check r now ident limit window = (True, r))
   \<and> (redis_raises r OpFromUrl \<or> redis_raises r OpGet \<longrightarrow>
        rate_limit_check r now ident limit window = (True, r)
        \<and> status_code (fst (handle h t (d, r) req token)) \<noteq> 429)
   \<and> (status_code (fst (handle h t (d, r) req token)) = 429 \<longrightarrow>
        \<not> redis_raises r OpFromUrl \<and> \<not> redis_raises r OpGet)
   \<and> (\<not> redis_raises r OpFromUrl \<and> \<not> redis_raises r OpGet \<longrightarrow>
        (status_code (fst (track_open (d, r) req token)) = 429)
          = (\<exists>c. live (req_now req) (redis_store r (''rate_limit:open_'' @ client_ip req)) = Some c
                 \<and> 30 \<le> c)
      \<and> (status_code (fst (track_click (d, r) req token)) = 429)
          = (\<exists>c. live (req_now req) (redis_store r (''rate_limit:click_'' @ client_ip req)) = Some c
                 \<and> 20 \<le> c)
      \<and> (status_code (fst (track_submission h (d, r) req token)) = 429)
          = (\<exists>c. live (req_now req) (redis_store r (''rate_limit:submit_'' @ client_ip req)) = Some c
                 \<and> 10 \<le> c))
   \<and> (\<not> redis_raises r OpFromUrl \<and> \<not> redis_raises r OpGet \<and> \<not> redis_raises r OpSet \<longrightarrow>
        (live (req_now req) (redis_store r (''rate_limit:open_'' @ client_ip req)) = None \<longrightarrow>
           redis_store (snd (snd (track_open (d, r) req token))) (''rate_limit:open_'' @ client_ip req)
             = Some (1, Some (req_now req + 60)))
      \<and> (live (req_now req) (redis_store r (''rate_limit:click_'' @ client_ip req)) = None \<longrightarrow>
           redis_store (snd (snd (track_click (d, r) req token))) (''rate_limit:click_'' @ client_ip req)
             = Some (1, Some (req_now req + 60)))
      \<and> (live (req_now req) (redis_store r (''rate_limit:submit_'' @ client_ip req)) = None \<longrightarrow>
           redis_store (snd (snd (track_submission h (d, r) req token))) (''rate_limit:submit_'' @ client_ip req)
             = Some (1, Some (req_now req + 300))))"
proof -
  have hO: "track_open (d, r) req token = handle h Open (d, r) req token"
   and hC: "track_click (d, r) req token = handle h Click (d, r) req token"
   and hS: "track_submission h (d, r) req token = handle h Submit (d, r) req token"
    by (simp_all add: handle_def)
  have a: "\<forall>e. rate_limit_try r now ident limit window = Inl e \<longrightarrow>
        rate_limit_check r now ident limit window = (True, r)"
    by (simp add: rate_limit_check_raises)
  have adm: "redis_raises r OpFromUrl \<or> redis_raises r OpGet \<Longrightarrow> fst (admit t' r req)" for t'
  proof -
    assume dn: "redis_raises r OpFromUrl \<or> redis_raises r OpGet"
    have "fst (rate_limit_check r n i l w)" for n i l w
      using rate_limit_check_rejects[of r n i l w] dn by blast
    then show "fst (admit t' r req)" by (cases t') simp_all
  qed
  have b: "redis_raises r OpFromUrl \<or> redis_raises r OpGet \<longrightarrow>
        rate_limit_check r now ident limit window = (True, r)
        \<and> status_code (fst (handle h t (d, r) req token)) \<noteq> 429"
    using rate_limit_try_down[of r now ident limit window] a adm[of t]
    by (auto simp: handle_429)
  have c: "status_code (fst (handle h t (d, r) req token)) = 429 \<longrightarrow>
        \<not> redis_raises r OpFromUrl \<and> \<not> redis_raises r OpGet"
    using b by blast
  have e: "\<not> redis_raises r OpFromUrl \<and> \<not> redis_raises r OpGet \<longrightarrow>
        (status_code (fst (track_open (d, r) req token)) = 429)
          = (\<exists>c. live (req_now req) (redis_store r (''rate_limit:open_'' @ client_ip req)) = Some c
                 \<and> 30 \<le> c)
      \<and> (status_code (fst (track_click (d, r) req token)) = 429)
          = (\<exists>c. live (req_now req) (redis_store r (''rate_limit:click_'' @ client_ip req)) = Some c
                 \<and> 20 \<le> c)
      \<and> (status_code (fst (track_submission h (d, r) req token)) = 429)
          = (\<exists>c. live (req_now req) (redis_store r (''rate_limit:submit_'' @ client_ip req)) = Some c
                 \<and> 10 \<le> c)"
    unfolding hO hC hS handle_429 by (simp add: rate_limit_check_rejects)
  have f: "\<not> redis_raises r OpFromUrl \<and> \<not> redis_raises r OpGet \<and> \<not> redis_raises r OpSet \<longrightarrow>
        (live (req_now req) (redis_store r (''rate_limit:open_'' @ client_ip req)) = None \<longrightarrow>
           redis_store (snd (snd (track_open (d, r) req token))) (''rate_limit:open_'' @ client_ip req)
             = Some (1, Some (req_now req + 60)))
      \<and> (live (req_now req) (redis_store r (''rate_limit:click_'' @ client_ip req)) = None \<longrightarrow>
           redis_store (snd (snd (track_click (d, r) req token))) (''rate_limit:click_'' @ client_ip req)
             = Some (1, Some (req_now req + 60)))
      \<and> (live (req_now req) (redis_store r (''rate_limit:submit_'' @ client_ip req)) = None \<longrightarrow>
           redis_store (snd (snd (track_submission h (d, r) req token))) (''rate_limit:submit_'' @ client_ip req)
             = Some (1, Some (req_now req + 300)))"
    unfolding hO hC hS handle_redis
    using rate_limit_check_fresh[of r "req_now req" "''open_'' @ client_ip req" 30 60]
          rate_limit_check_fresh[of r "req_now req" "''click_'' @ client_ip req" 20 60]
          rate_limit_check_fresh[of r "req_now req" "''submit_'' @ client_ip req" 10 300]
    by simp
  from a b c e f show ?thesis by blast
qed

theorem redis_failure_admits_witness:
  "redis_raises ex_redis_down OpGet
   \<and> fst (rate_limit_check ex_redis_down 7 ''open_10.0.0.1'' 30 60)
   \<and> status_code (fst (handle (take 16) Open (ex_db, ex_redis_down) ex_req ''tok'')) \<noteq> 429
   \<and> status_code (fst (track_open (ex_db, ex_redis_full) ex_req ''tok'')) = 429
   \<and> \<not> redis_raises ex_redis_full OpGet"
proof -
  have g: "redis_raises ex_redis_down OpGet" by code_simp
  have k: "status_code (fst (track_open (ex_db, ex_redis_full) ex_req ''tok'')) = 429" by code_simp
  have hO: "track_open (ex_db, ex_redis_full) ex_req ''tok'' = handle (take 16) Open (ex_db, ex_redis_full) ex_req ''tok''"
    by (simp add: handle_def)
  from redis_failure_admits[of ex_redis_down 7 "''open_10.0.0.1''" 30 60 "take 16" Open ex_db ex_req "''tok''"] g
  have 1: "fst (rate_limit_check ex_redis_down 7 ''open_10.0.0.1'' 30 60)"
          "status_code (fst (handle (take 16) Open (ex_db, ex_redis_down) ex_req ''tok'')) \<noteq> 429"
    by simp_all
  from redis_failure_admits[of ex_redis_full 7 "''open_10.0.0.1''" 30 60 "take 16" Open ex_db ex_req "''tok''"] k
  have 2: "\<not> redis_raises ex_redis_full OpGet"
    unfolding hO by blast
  from g 1 2 k show ?thesis by blast
qed

subsection \<open>Preconditions of sending\<close>

text \<open>
  C6 as stated fails. The route counts the targets assigned to the campaign, whatever their
  status: a draft campaign whose only target is already \<open>submitted\<close> has no pending
  target, and is queued and set active.
\<close>

theorem send_campaign_counterexample:
  "pending_targets ex_db_draft 1 = []
   \<and> snd (snd (send_campaign True (ex_db_draft, []) (ex_req\<lparr>req_user := Some ex_admin\<rparr>) 1)) = [1]
   \<and> map c_status (campaigns (fst (snd (send_campaign True (ex_db_draft, [])
          (ex_req\<lparr>req_user := Some ex_admin\<rparr>) 1)))) = [Active]"
  by code_simp

lemma find_map_active:
  "find (\<lambda>c. c_id c = i) (map (\<lambda>c. if c_id c = i then c\<lparr>c_status := Active, c_started_at := Some now\<rparr> else c) xs)
     = map_option (\<lambda>c. c\<lparr>c_status := Active, c_started_at := Some now\<rparr>) (find (\<lambda>c. c_id c = i) xs)"
  by (induction xs) auto

lemma get_campaign_active:
  "get_campaign d i = Some c \<Longrightarrow>
   get_campaign (set_campaign_active d i now) i = Some (c\<lparr>c_status := Active, c_started_at := Some now\<rparr>)"
  unfolding get_campaign_def set_campaign_active_def
  by (simp add: find_map_active)

lemma get_campaign_log_audit [simp]: "get_campaign (log_audit d req a rt ri de) i = get_campaign d i"
  by (simp add: get_campaign_def log_audit_def)

lemma log_audit_campaigns [simp]: "campaigns (log_audit d req a rt ri de) = campaigns d"
  by (simp add: log_audit_def)

lemma set_campaign_active_tables [simp]:
  "campaign_targets (set_campaign_active d i now) = campaign_targets d"
  "email_events (set_campaign_active d i now) = email_events d"
  by (simp_all add: set_campaign_active_def)

text \<open>
  C6 (amended). For an existing campaign and a user allowed to send it, the route leaves
  database and queue as they are and flashes the failed condition when the campaign is not
  a draft, else when no target is assigned to it, else when consent is required and not
  verified. Otherwise the run is queued and the campaign set active, with targets and
  events untouched; and the state changes only when all three conditions hold.
\<close>

theorem send_campaign_preconditions:
  assumes c: "get_campaign d i = Some c"
      and u: "req_user req = Some u"
      and perm: "u_is_admin u \<or> c_created_by c = u_id u"
  shows "(c_status c \<noteq> Draft \<longrightarrow>
            send_campaign consent_required (d, q) req i
              = (Redirect ''campaigns.view'' (Flash ''Only draft campaigns can be sent.'' ''warning''), d, q))
       \<and> (c_status c = Draft \<and> assigned_targets d i = [] \<longrightarrow>
            send_campaign consent_required (d, q) req i
              = (Redirect ''campaigns.view'' (Flash ''No targets assigned to this campaign.'' ''warning''), d, q))
       \<and> (c_status c = Draft \<and> assigned_targets d i \<noteq> [] \<and> consent_required \<and> \<not> c_consent_verified c \<longrightarrow>
            send_campaign consent_required (d, q) req i
              = (Redirect ''campaigns.view''
                   (Flash ''Consent must be verified before sending campaigns.'' ''danger''), d, q))
       \<and> (c_status c = Draft \<and> assigned_targets d i \<noteq> [] \<and> (consent_required \<longrightarrow> c_consent_verified c) \<longrightarrow>
            snd (snd (send_campaign consent_required (d, q) req i)) = q @ [i]
          \<and> get_campaign (fst (snd (send_campaign consent_required (d, q) req i))) i
              = Some (c\<lparr>c_status := Active, c_started_at := Some (req_now req)\<rparr>)
          \<and> campaign_targets (fst (snd (send_campaign consent_required (d, q) req i))) = campaign_targets d
          \<and> email_events (fst (snd (send_campaign consent_required (d, q) req i))) = email_events d)
       \<and> (snd (send_campaign consent_required (d, q) req i) \<noteq> (d, q) \<longrightarrow>
            c_status c = Draft \<and> assigned_targets d i \<noteq> [] \<and> (consent_required \<longrightarrow> c_consent_verified c))"
proof -
  have cid: "c_id c = i" using c by (auto simp: get_campaign_def find_Some_iff)
  note act = get_campaign_active[OF c]
  show ?thesis
    using c u perm
    by (auto simp: send_campaign_def Let_def assigned_targets_def queue_campaign_emails_def act cid)
qed

theorem send_campaign_preconditions_witness:
  "get_campaign ex_db_draft 1 = Some (hd (campaigns ex_db_draft))
   \<and> req_user (ex_req\<lparr>req_user := Some ex_admin\<rparr>) = Some ex_admin
   \<and> u_is_admin ex_admin
   \<and> c_status (hd (campaigns ex_db_draft)) = Draft
   \<and> assigned_targets ex_db_draft 1 \<noteq> []
   \<and> c_consent_verified (hd (campaigns ex_db_draft))
   \<and> snd (snd (send_campaign True (ex_db_draft, []) (ex_req\<lparr>req_user := Some ex_admin\<rparr>) 1)) = [] @ [1]"
proof -
  have c: "get_campaign ex_db_draft 1 = Some (hd (campaigns ex_db_draft))" by code_simp
  have u: "req_user (ex_req\<lparr>req_user := Some ex_admin\<rparr>) = Some ex_admin" by simp
  have p: "u_is_admin ex_admin" by code_simp
  have s: "c_status (hd (campaigns ex_db_draft)) = Draft" by code_simp
  have a: "assigned_targets ex_db_draft 1 \<noteq> []" by code_simp
  have v: "c_consent_verified (hd (campaigns ex_db_draft))" by code_simp
  from send_campaign_preconditions[OF c u disjI1[OF p], of True "[]"] s a v
  have "snd (snd (send_campaign True (ex_db_draft, []) (ex_req\<lparr>req_user := Some ex_admin\<rparr>) 1)) = [] @ [1]"
    by blast
  with c u p s a v show ?thesis by blast
qed

subsection \<open>Rendering\<close>

lemma starts_with_append [simp]: "starts_with (a @ b) (a @ c) = starts_with b c"
  by (induction a) auto

lemma starts_with_self [simp]: "starts_with a (a @ c)"
  using starts_with_append[of a "[]" c] by simp



lemma replace_Nil [simp]: "old \<noteq> [] \<Longrightarrow> str_replace old new [] = []"
  by (subst str_replace.simps) simp










subsection \<open>The search for placeholders\<close>


lemma not_word_brace [simp]: "\<not> is_word_char (CHR ''}'')" "\<not> is_word_char (CHR ''{'')"
  by (simp_all add: is_word_char_def)









subsection \<open>Template rendering and validation\<close>




subsection \<open>Tokens\<close>

lemma uuid4_int_mask:
  "uuid4_int b = (b AND free_bits) OR (push_bit 48 0x8000 OR push_bit 76 4)"
proof -
  have g: "((b AND NOT m1 OR s1) AND NOT m2 OR s2) = (b AND NOT (m1 OR m2)) OR ((s1 AND NOT m2) OR s2)"
    for m1 s1 m2 s2 :: "128 word"
    by (rule bit_eqI) (auto simp: bit_and_iff bit_or_iff bit_not_iff)
  have c: "(push_bit 48 0x8000 :: 128 word) AND NOT (push_bit 64 0xf000) = push_bit 48 0x8000"
    by simp
  show ?thesis
    unfolding uuid4_int_def Let_def free_bits_def g c ..
qed

lemma fixed_disjoint: "(push_bit 48 0x8000 OR push_bit 76 4 :: 128 word) AND free_bits = 0"
  by (simp add: free_bits_def)

lemma uuid4_int_free: "uuid4_int b AND free_bits = b AND free_bits"
proof -
  have "(x AND f OR c) AND f = x AND f" if "c AND f = 0" for x f c :: "128 word"
  proof -
    have "(x AND f OR c) AND f = (x AND f) OR (c AND f)"
      by (rule bit_eqI) (auto simp: bit_and_iff bit_or_iff)
    with that show ?thesis by simp
  qed
  from this[OF fixed_disjoint] show ?thesis by (simp add: uuid4_int_mask)
qed

lemma uuid4_int_eq_iff: "uuid4_int b = uuid4_int b' \<longleftrightarrow> b AND free_bits = b' AND free_bits"
proof
  assume "uuid4_int b = uuid4_int b'"
  then have "uuid4_int b AND free_bits = uuid4_int b' AND free_bits" by simp
  then show "b AND free_bits = b' AND free_bits" by (simp add: uuid4_int_free)
next
  assume "b AND free_bits = b' AND free_bits"
  then show "uuid4_int b = uuid4_int b'" by (simp add: uuid4_int_mask)
qed

lemma hex_digit_inj:
  assumes "a < 16" "b < 16" "hex_digit a = hex_digit b"
  shows "a = b"
proof -
  have d: "distinct ''0123456789abcdef''" by simp
  have l: "length ''0123456789abcdef'' = 16" by simp
  from assms show ?thesis
    unfolding hex_digit_def using nth_eq_iff_index_eq[OF d, of a b] l by simp
qed

lemma nibble_less: "unat (x AND (0xf :: 128 word)) < 16"
proof -
  have "x AND 0xf \<le> 0xf" by (rule word_and_le1)
  then have "unat (x AND 0xf) \<le> unat (0xf :: 128 word)" by (simp add: word_le_nat_alt)
  then show ?thesis by simp
qed

lemma fifteen_mask: "(0xf :: 128 word) = mask 4"
  by (simp add: mask_eq_exp_minus_1)

lemma hex32_inj:
  assumes "hex32 w = hex32 w'"
  shows "w = w'"
proof (rule bit_word_eqI)
  fix n assume n: "n < LENGTH(128)"
  let ?i = "n div 4"
  have i: "?i \<in> set (rev [0..<32])" using n by auto
  from assms have "\<forall>i\<in>set (rev [0..<32]).
      hex_digit (unat (drop_bit (4 * i) w AND 0xf)) = hex_digit (unat (drop_bit (4 * i) w' AND 0xf))"
    unfolding hex32_def map_eq_conv .
  with i have "hex_digit (unat (drop_bit (4 * ?i) w AND 0xf)) = hex_digit (unat (drop_bit (4 * ?i) w' AND 0xf))"
    by blast
  from hex_digit_inj[OF nibble_less nibble_less this]
  have e: "drop_bit (4 * ?i) w AND 0xf = drop_bit (4 * ?i) w' AND 0xf" by (simp add: word_unat_eq_iff)
  have "bit w n = bit (drop_bit (4 * ?i) w AND 0xf) (n mod 4)" for w :: "128 word"
  proof -
    have "n mod 4 < 128" by (rule less_trans[OF mod_less_divisor]) simp_all
    then show ?thesis
      unfolding fifteen_mask by (simp add: bit_and_iff bit_drop_bit_eq bit_mask_iff)
  qed
  with e show "bit w n = bit w' n" by simp
qed

lemma uuid4_hex_eq_iff: "uuid4_hex b = uuid4_hex b' \<longleftrightarrow> b AND free_bits = b' AND free_bits"
  unfolding uuid4_hex_def using hex32_inj uuid4_int_eq_iff by metis

lemma uuid4_hex_length: "length (uuid4_hex b) = 32"
  by (simp add: uuid4_hex_def hex32_def)

lemma uuid4_hex_chars: "set (uuid4_hex b) \<subseteq> set ''0123456789abcdef''"
proof -
  have "hex_digit n \<in> set ''0123456789abcdef''" for n
    unfolding hex_digit_def by (rule nth_mem) simp
  then show ?thesis by (auto simp: uuid4_hex_def hex32_def)
qed

lemma token_list_simps [simp]:
  "token_list (add_event d cid k ts ip ua md) = token_list d"
  "token_list (log_audit d req a rt ri de) = token_list d"
  "token_list (set_status d cid s) = token_list d"
  "token_list (mark_sent d cid now) = token_list d"
  "token_list (set_campaign_completed d i now) = token_list d"
  "token_list (set_campaign_active d i now) = token_list d"
  by (simp_all add: token_list_def mark_sent_def set_campaign_completed_def comp_def if_distrib
               cong: if_cong)

lemma send_step_tokens: "token_list (rs_db (send_step m cfg c rs ct)) = token_list (rs_db rs)"
  by (auto simp: send_step_def send_email_to_target_def Let_def log_sent_event_def log_error_event_def
           split: prod.splits sum.splits option.splits)

lemma fold_send_step_tokens:
  "token_list (rs_db (fold (\<lambda>ct rs. send_step m cfg c rs ct) cts rs)) = token_list (rs_db rs)"
  by (induction cts arbitrary: rs) (simp_all add: send_step_tokens)

lemma send_campaign_emails_tokens:
  "token_list (rs_db (snd (send_campaign_emails m cfg req rs i))) = token_list (rs_db rs)"
  by (simp add: send_campaign_emails_def Let_def fold_send_step_tokens split: option.splits)

lemma send_campaign_tokens:
  "token_list (fst (snd (send_campaign cr (d, q) req i))) = token_list d"
  by (simp add: send_campaign_def Let_def split: option.splits)

lemma handle_tokens: "token_list (fst (snd (handle h t (d, r) req token))) = token_list d"
  by (simp add: token_list_def handle_token_list)

lemma attach_target_tokens:
  "distinct (token_list d) \<Longrightarrow> distinct (token_list (snd (attach_target rnd d c t)))"
  by (auto simp: attach_target_def Let_def token_list_def split: option.splits)

lemma attach_target_old:
  "take (length (token_list d)) (token_list (snd (attach_target rnd d c t))) = token_list d"
  by (auto simp: attach_target_def Let_def token_list_def split: option.splits)

lemma attach_target_new:
  "fst (attach_target rnd d c t) = Attached
   \<Longrightarrow> token_list (snd (attach_target rnd d c t)) = token_list d @ [uuid4_hex rnd]"
  by (auto simp: attach_target_def Let_def token_list_def new_campaign_target_def split: option.splits if_splits)

text \<open>
  C8 as stated fails. The version and variant of the UUID overwrite six of the 128 random
  bits: two different draws of the generator give the same token, so a token carries
  fewer than 128 bits.
\<close>

theorem token_entropy_counterexample:
  "(0 :: 128 word) \<noteq> push_bit 62 1
   \<and> ct_unique_token (new_campaign_target 0 1 1 1 None)
       = ct_unique_token (new_campaign_target (push_bit 62 1) 1 1 1 None)"
  by code_simp

text \<open>
  C8 (amended). A token generated by the constructor is 32 lower-case hexadecimal digits
  (safe in a URL); two draws give the same token exactly when they agree on the 122 bits
  that version and variant leave free. The constructor generates the token when the caller
  passes none; attaching a target keeps the tokens of the rows there are, adds the
  generated one, and keeps the tokens of the table distinct (the unique constraint refuses
  a duplicate); no trigger, no start of a campaign and no dispatcher run changes a token.
\<close>

theorem token_generation:
  "length (uuid4_hex rnd) = 32
   \<and> set (uuid4_hex rnd) \<subseteq> set ''0123456789abcdef''
   \<and> (uuid4_hex rnd = uuid4_hex rnd' \<longleftrightarrow> rnd AND free_bits = rnd' AND free_bits)
   \<and> length (filter (bit free_bits) [0..<128]) = 122
   \<and> ct_unique_token (new_campaign_target rnd i c t None) = uuid4_hex rnd
   \<and> (fst (attach_target rnd d c t) = Attached \<longrightarrow>
        token_list (snd (attach_target rnd d c t)) = token_list d @ [uuid4_hex rnd])
   \<and> take (length (token_list d)) (token_list (snd (attach_target rnd d c t))) = token_list d
   \<and> (distinct (token_list d) \<longrightarrow> distinct (token_list (snd (attach_target rnd d c t))))
   \<and> token_list (fst (snd (handle h tr (d, r) req token))) = token_list d
   \<and> token_list (fst (snd (send_campaign cr (d, q) req c))) = token_list d
   \<and> token_list (rs_db (snd (send_campaign_emails m cfg req rs c))) = token_list (rs_db rs)"
proof -
  have n: "length (filter (bit free_bits) [0..<128]) = 122" by code_simp
  have g: "ct_unique_token (new_campaign_target rnd i c t None) = uuid4_hex rnd"
    by (simp add: new_campaign_target_def)
  from n g show ?thesis
    using uuid4_hex_length[of rnd] uuid4_hex_chars[of rnd] uuid4_hex_eq_iff[of rnd rnd']
      attach_target_new[of rnd d c t] attach_target_old[of d rnd c t]
      attach_target_tokens[of d rnd c t] handle_tokens[of h tr d r req token]
      send_campaign_tokens[of cr d q req c] send_campaign_emails_tokens[of m cfg req rs c]
    by blast
qed

theorem token_generation_witness:
  "fst (attach_target 5 ex_db 1 2) = Attached
   \<and> distinct (token_list ex_db)
   \<and> token_list (snd (attach_target 5 ex_db 1 2)) = [''tok'', ''00000000000040008000000000000005'']
   \<and> distinct (token_list (snd (attach_target 5 ex_db 1 2)))"
proof -
  have a: "fst (attach_target 5 ex_db 1 2) = Attached" by code_simp
  have d: "distinct (token_list ex_db)" by code_simp
  have t: "token_list ex_db @ [uuid4_hex 5] = [''tok'', ''00000000000040008000000000000005'']"
    by code_simp
  note T = token_generation[of 5 _ _ 1 2 ex_db]
  from T a have "token_list (snd (attach_target 5 ex_db 1 2)) = token_list ex_db @ [uuid4_hex 5]"
    by blast
  with t have l: "token_list (snd (attach_target 5 ex_db 1 2)) = [''tok'', ''00000000000040008000000000000005'']"
    by simp
  from T d have "distinct (token_list (snd (attach_target 5 ex_db 1 2)))" by blast
  with a d l show ?thesis by blast
qed

subsection \<open>Dispatcher\<close>

lemma send_step_failed:
  assumes "get_target (rs_db rs) (ct_target_id ct) = Some tg"
      and "\<And>subject html. \<not> flask_mail_ok m (t_email tg) subject html
                           \<and> \<not> smtp_ok m (t_email tg) subject html"
  shows "rs_db (send_step m cfg c rs ct) = rs_db rs
       \<and> rs_error_count (send_step m cfg c rs ct) = rs_error_count rs + 1
       \<and> rs_success_count (send_step m cfg c rs ct) = rs_success_count rs"
  using assms
  by (auto simp: send_step_def send_email_to_target_def Let_def send_email_flask_mail_def
                 send_email_direct_smtp_def
           split: prod.splits sum.splits option.splits)

text \<open>
  C5, at a run over three pending targets. The mail to the first recipient fails on both
  ways: the run counts an error and goes on, the target stays pending, and no event at all
  is recorded for it, in particular no \<open>bounced\<close> event. The second mail goes through:
  a \<open>sent\<close> event, status \<open>sent\<close>, \<open>sent_at\<close> set. Only for the third target, where an
  exception leaves \<open>send_email_to_target\<close>, is a \<open>bounced\<close> event recorded.
\<close>

theorem dispatcher_failure_not_recorded:
  "pending_targets ex_db_pending 1 = campaign_targets ex_db_pending
   \<and> \<not> send_email_flask_mail ex_mailer ''a@b.c'' subject html
   \<and> map ev_campaign_target_id
        (email_events (rs_db (snd (send_campaign_emails ex_mailer ex_settings ex_req ex_run 1)))) = [2, 3]
   \<and> map ev_event_type
        (email_events (rs_db (snd (send_campaign_emails ex_mailer ex_settings ex_req ex_run 1))))
        = [EvSent, EvBounced]
   \<and> count_events (rs_db (snd (send_campaign_emails ex_mailer ex_settings ex_req ex_run 1))) 1 EvBounced = 0
   \<and> map ct_status
        (campaign_targets (rs_db (snd (send_campaign_emails ex_mailer ex_settings ex_req ex_run 1))))
        = [Pending, Sent, Pending]
   \<and> map ct_sent_at
        (campaign_targets (rs_db (snd (send_campaign_emails ex_mailer ex_settings ex_req ex_run 1))))
        = [None, Some 10, None]
   \<and> rs_error_count (snd (send_campaign_emails ex_mailer ex_settings ex_req ex_run 1)) = 2
   \<and> rs_success_count (snd (send_campaign_emails ex_mailer ex_settings ex_req ex_run 1)) = 1"
proof -
  have 1: "\<not> send_email_flask_mail ex_mailer ''a@b.c'' subject html"
    by (simp add: send_email_flask_mail_def send_email_direct_smtp_def ex_mailer_def)
  have 2: "pending_targets ex_db_pending 1 = campaign_targets ex_db_pending
   \<and> map ev_campaign_target_id
        (email_events (rs_db (snd (send_campaign_emails ex_mailer ex_settings ex_req ex_run 1)))) = [2, 3]
   \<and> map ev_event_type
        (email_events (rs_db (snd (send_campaign_emails ex_mailer ex_settings ex_req ex_run 1))))
        = [EvSent, EvBounced]
   \<and> count_events (rs_db (snd (send_campaign_emails ex_mailer ex_settings ex_req ex_run 1))) 1 EvBounced = 0
   \<and> map ct_status
        (campaign_targets (rs_db (snd (send_campaign_emails ex_mailer ex_settings ex_req ex_run 1))))
        = [Pending, Sent, Pending]
   \<and> map ct_sent_at
        (campaign_targets (rs_db (snd (send_campaign_emails ex_mailer ex_settings ex_req ex_run 1))))
        = [None, Some 10, None]
   \<and> rs_error_count (snd (send_campaign_emails ex_mailer ex_settings ex_req ex_run 1)) = 2
   \<and> rs_success_count (snd (send_campaign_emails ex_mailer ex_settings ex_req ex_run 1)) = 1"
    by code_simp
  from 1 2 show ?thesis by blast
qed

subsection \<open>Counting in the queries\<close>

lemma length_filter_concat:
  "length (filter P (concat (map f xs))) = sum_list (map (\<lambda>x. length (filter P (f x))) xs)"
  by (induction xs) auto

lemma length_filter_sum: "length (filter P xs) = sum_list (map (\<lambda>x. if P x then 1 else 0) xs)"
  by (induction xs) auto

lemma key_filter_length:
  "distinct (map ct_id cts)
   \<Longrightarrow> length (filter (\<lambda>ct. ct_id ct = x \<and> Q ct) cts)
       = (if \<exists>ct\<in>set cts. ct_id ct = x \<and> Q ct then 1 else 0)"
proof (induction cts)
  case Nil
  then show ?case by simp
next
  case (Cons a cts)
  then show ?case by (auto simp: image_iff)
qed

lemma joined_eq:
  "joined d = concat (map (\<lambda>e. map (Pair e) (filter (\<lambda>ct. ev_campaign_target_id e = ct_id ct)
                                        (campaign_targets d))) (email_events d))"
proof -
  have inner: "concat (map (\<lambda>ct. if ev_campaign_target_id e = ct_id ct then [(e, ct)] else []) cts)
        = map (Pair e) (filter (\<lambda>ct. ev_campaign_target_id e = ct_id ct) cts)" for e :: email_event and cts :: "campaign_target list"
    by (induction cts) auto
  show ?thesis
    unfolding joined_def
    by (rule arg_cong[where f = concat], rule map_cong[OF refl], rule inner)
qed

lemma set_joined:
  "set (joined d) = {(e, ct). e \<in> set (email_events d) \<and> ct \<in> set (campaign_targets d)
                       \<and> ev_campaign_target_id e = ct_id ct}"
  by (auto simp: joined_eq)

lemma sent_rows_length:
  assumes "primary_key d"
  shows "length (event_rows d i k)
       = length (filter (\<lambda>e. ev_event_type e = k \<and> in_campaign d i (ev_campaign_target_id e))
                   (email_events d))"
proof -
  have inner: "length (filter (\<lambda>(e, ct). ct_campaign_id ct = i \<and> ev_event_type e = k)
                  (map (Pair e) (filter (\<lambda>ct. ev_campaign_target_id e = ct_id ct) (campaign_targets d))))
             = (if ev_event_type e = k \<and> in_campaign d i (ev_campaign_target_id e) then 1 else 0)" for e
  proof -
    have "length (filter (\<lambda>(e, ct). ct_campaign_id ct = i \<and> ev_event_type e = k)
                  (map (Pair e) (filter (\<lambda>ct. ev_campaign_target_id e = ct_id ct) (campaign_targets d))))
        = length (filter (\<lambda>ct. ct_id ct = ev_campaign_target_id e
                              \<and> (ct_campaign_id ct = i \<and> ev_event_type e = k)) (campaign_targets d))"
      by (simp add: filter_map comp_def conj_commute eq_commute cong: conj_cong)
    also have "\<dots> = (if \<exists>ct\<in>set (campaign_targets d). ct_id ct = ev_campaign_target_id e
                              \<and> (ct_campaign_id ct = i \<and> ev_event_type e = k) then 1 else 0)"
      using assms by (intro key_filter_length) (simp add: primary_key_def)
    also have "\<dots> = (if ev_event_type e = k \<and> in_campaign d i (ev_campaign_target_id e) then 1 else 0)"
      by (auto simp: in_campaign_def)
    finally show ?thesis .
  qed
  show ?thesis
    unfolding event_rows_def joined_eq length_filter_concat inner
    by (simp add: length_filter_sum)
qed

lemma distinct_targets_card:
  assumes "dialect uri = ''postgresql''"
  shows "count_distinct_targets uri (event_rows d i k) = card (engaged_targets d i k)"
proof -
  have "set (map (\<lambda>(e, ct). ev_campaign_target_id e) (event_rows d i k)) = engaged_targets d i k"
    unfolding event_rows_def engaged_targets_def in_campaign_def
    by (force simp: set_joined image_iff)
  with assms show ?thesis
    by (simp add: count_distinct_targets_def length_remdups_card_conv)
qed

lemma distinct_fst_join:
  assumes "distinct es" and one: "\<And>e. length (g e) \<le> 1"
  shows "distinct (map fst (filter P (concat (map (\<lambda>e. map (Pair e) (g e)) es))))"
  using assms(1)
proof (induction es)
  case Nil
  then show ?case by simp
next
  case (Cons e es)
  have h: "set (map fst (filter P (map (Pair e) (g e)))) \<subseteq> {e}" by auto
  have t: "set (map fst (filter P (concat (map (\<lambda>e. map (Pair e) (g e)) es)))) \<subseteq> set es" by auto
  have l1: "length (filter P (map (Pair e) (g e))) \<le> length (map (Pair e) (g e))"
    by (rule length_filter_le)
  have l2: "length (map (Pair e) (g e)) \<le> 1" using one[of e] by simp
  note le_trans[OF l1 l2]
  then have d: "distinct (map fst (filter P (map (Pair e) (g e))))"
    by (cases "filter P (map (Pair e) (g e))") (auto simp: le_Suc_eq)
  from Cons have "e \<notin> set es" and "distinct (map fst (filter P (concat (map (\<lambda>e. map (Pair e) (g e)) es))))"
    by simp_all
  with d h t show ?case by (auto simp del: map_map filter_map)
qed

lemma distinct_rows_count:
  assumes pk: "primary_key d" and ek: "distinct (map ev_id (email_events d))"
      and other: "dialect uri \<noteq> ''postgresql''"
  shows "count_distinct_targets uri (event_rows d i k) = length (event_rows d i k)"
proof -
  have one: "length (filter (\<lambda>ct. ev_campaign_target_id e = ct_id ct) (campaign_targets d)) \<le> 1"
    for e :: email_event
    using key_filter_length[of "campaign_targets d" "ev_campaign_target_id e" "\<lambda>ct. True"] pk
    by (simp add: primary_key_def eq_commute)
  from ek have de: "distinct (email_events d)" by (simp add: distinct_map)
  from distinct_fst_join[OF de, of "\<lambda>e. filter (\<lambda>ct. ev_campaign_target_id e = ct_id ct) (campaign_targets d)", OF one]
  have "distinct (map fst (event_rows d i k))" unfolding event_rows_def joined_eq .
  then have "length (remdups (map fst (event_rows d i k))) = length (event_rows d i k)"
    by (simp add: distinct_remdups_id)
  with other show ?thesis by (simp add: count_distinct_targets_def)
qed

lemma total_targets_card:
  assumes "primary_key d"
  shows "length (filter (\<lambda>ct. ct_campaign_id ct = i) (campaign_targets d))
           = card {ct \<in> set (campaign_targets d). ct_campaign_id ct = i}"
proof -
  from assms have "distinct (campaign_targets d)" by (simp add: primary_key_def distinct_map)
  then have "distinct (filter (\<lambda>ct. ct_campaign_id ct = i) (campaign_targets d))" by simp
  from distinct_card[OF this] show ?thesis by simp
qed

subsection \<open>Rounding to doubles\<close>

lemma round_half_even_bound: "\<bar>of_int (round_half_even x) - x\<bar> \<le> 1 / 2"
proof -
  define f where "f = \<lfloor>x\<rfloor>"
  have 1: "of_int f \<le> x" and 2: "x < of_int f + 1" unfolding f_def by linarith+
  consider (a) "x - of_int f < 1 / 2" | (b) "x - of_int f > 1 / 2" | (c) "x - of_int f = 1 / 2"
    by linarith
  then show ?thesis
  proof cases
    case a
    then have "round_half_even x = f" by (simp add: round_half_even_def Let_def f_def)
    with a 1 show ?thesis by simp
  next
    case b
    then have "round_half_even x = f + 1" by (simp add: round_half_even_def Let_def f_def)
    with b 2 show ?thesis by simp
  next
    case c
    then have "round_half_even x = f \<or> round_half_even x = f + 1"
      by (simp add: round_half_even_def Let_def f_def)
    with c show ?thesis by auto
  qed
qed

lemma bit_length_bounds: "0 < n \<Longrightarrow> 2 ^ bit_length n \<le> 2 * n \<and> n < 2 ^ bit_length n"
proof (induction n rule: bit_length.induct)
  case (1 n)
  show ?case
  proof (cases "n div 2 \<le> 0")
    case True
    with "1.prems" have "n = 1" by linarith
    then show ?thesis by (simp add: bit_length.simps[of 1] bit_length.simps[of 0])
  next
    case False
    then have pos: "0 < n div 2" by simp
    from "1.IH"[OF _ pos] "1.prems"
    have IH: "2 ^ bit_length (n div 2) \<le> 2 * (n div 2)" "n div 2 < 2 ^ bit_length (n div 2)"
      by simp_all
    have bl: "bit_length n = Suc (bit_length (n div 2))"
      using "1.prems" by (subst bit_length.simps) simp
    have a: "2 * (n div 2) \<le> n" by linarith
    have b: "n \<le> 2 * (n div 2) + 1" by linarith
    from IH a b show ?thesis unfolding bl by simp
  qed
qed

lemma pow2_powi: "pow2 e = 2 powi e"
  by (simp add: pow2_def power_int_def field_simps)

lemma pow2_pos [simp]: "0 < pow2 e"
  by (simp add: pow2_powi)

lemma pow2_add: "pow2 (a + b) = pow2 a * pow2 b"
  by (simp add: pow2_powi power_int_add)

lemma pow2_diff_nat: "pow2 (int a - int b) = 2 ^ a / 2 ^ b"
  by (simp add: pow2_powi power_int_diff)

lemma pow2_numerals: "pow2 1 = 2" "pow2 (-1) = 1 / 2" "pow2 (- 53) = 1 / 2 ^ 53"
  by (simp_all add: pow2_def)

lemma exponent_bounds:
  assumes "0 < x"
  shows "pow2 (exponent x) \<le> x \<and> x < 2 * pow2 (exponent x)"
proof -
  obtain p q where pq: "quotient_of x = (p, q)" by (cases "quotient_of x")
  then have q: "0 < q" and x: "x = of_int p / of_int q"
    by (simp_all add: quotient_of_denom_pos quotient_of_div)
  with assms have p: "0 < p" by (simp add: zero_less_divide_iff)
  define k where "k = int (bit_length p) - int (bit_length q)"
  from bit_length_bounds[OF p] have bp: "(2::rat) ^ bit_length p \<le> 2 * of_int p" "of_int p < (2::rat) ^ bit_length p"
    by (metis of_int_le_iff of_int_mult of_int_numeral of_int_power,
        metis of_int_less_iff of_int_numeral of_int_power)
  from bit_length_bounds[OF q] have bq: "(2::rat) ^ bit_length q \<le> 2 * of_int q" "of_int q < (2::rat) ^ bit_length q"
    by (metis of_int_le_iff of_int_mult of_int_numeral of_int_power,
        metis of_int_less_iff of_int_numeral of_int_power)
  have pk: "pow2 k = 2 ^ bit_length p / 2 ^ bit_length q" by (simp add: k_def pow2_diff_nat)
  have P: "(0::rat) < of_int p" and Q: "(0::rat) < of_int q" using p q by simp_all
  have up: "x < 2 * pow2 k"
  proof -
    have "of_int p * (2::rat) ^ bit_length q < 2 ^ bit_length p * (2 * of_int q)"
      using bp(2) bq(1) P Q by (intro mult_less_le_imp_less) simp_all
    then show ?thesis unfolding x pk using Q by (simp add: field_simps)
  qed
  have lo: "pow2 k / 2 < x"
  proof -
    have "(2::rat) ^ bit_length p * of_int q < (2 * of_int p) * 2 ^ bit_length q"
      using bp(1) bq(2) P Q by (intro mult_le_less_imp_less) simp_all
    then show ?thesis unfolding x pk using Q by (simp add: field_simps)
  qed
  have km: "pow2 (k - 1) = pow2 k / 2"
    using pow2_add[of k "-1"] by (simp add: pow2_numerals)
  have e: "exponent x = (if x < pow2 k then k - 1 else k)"
    by (simp add: exponent_def pq k_def)
  show ?thesis
  proof (cases "x < pow2 k")
    case True
    with e lo km show ?thesis by simp
  next
    case False
    with e up show ?thesis by simp
  qed
qed

lemma fl_error:
  assumes "0 \<le> x"
  shows "\<bar>fl x - x\<bar> \<le> x / 2 ^ 53"
proof (cases "x = 0")
  case True
  then show ?thesis by (simp add: fl_def)
next
  case False
  with assms have pos: "0 < x" by simp
  define ulp where "ulp = pow2 (exponent x - 52)"
  have ulp_pos: "0 < ulp" by (simp add: ulp_def)
  have f: "fl x = of_int (round_half_even (x / ulp)) * ulp"
    using pos by (simp add: fl_def ulp_def Let_def)
  have "fl x - x = (of_int (round_half_even (x / ulp)) - x / ulp) * ulp"
    using ulp_pos by (simp add: f field_simps)
  then have "\<bar>fl x - x\<bar> = \<bar>of_int (round_half_even (x / ulp)) - x / ulp\<bar> * ulp"
    using ulp_pos by (simp add: abs_mult)
  also have "\<dots> \<le> (1 / 2) * ulp"
    using round_half_even_bound[of "x / ulp"] ulp_pos by (intro mult_right_mono) simp_all
  also have "(1 / 2) * ulp = pow2 (exponent x) / 2 ^ 53"
  proof -
    have "ulp = pow2 (exponent x) * pow2 (- 52)"
      unfolding ulp_def using pow2_add[of "exponent x" "- 52"] by simp
    then show ?thesis by (simp add: pow2_def)
  qed
  also have "\<dots> \<le> x / 2 ^ 53"
    using exponent_bounds[OF pos] by (simp add: divide_right_mono)
  finally show ?thesis .
qed

lemma fl_nonneg: "0 \<le> fl x"
  by (simp add: fl_def Let_def round_half_even_def zero_le_mult_iff) (auto simp: zero_le_divide_iff less_imp_le)

lemma round_half_even_nonneg: "0 \<le> x \<Longrightarrow> 0 \<le> round_half_even x"
  by (auto simp: round_half_even_def Let_def)

lemma funnel_rate_accuracy:
  assumes "0 < d"
  shows "\<bar>funnel_rate n d - 100 * (of_nat n / of_nat d)\<bar>
           \<le> 1 / 200 + (100 * (of_nat n / of_nat d) + 1) / 2 ^ 51"
proof -
  define q :: rat where "q = of_nat n / of_nat d"
  define v1 where "v1 = fl q"
  define v2 where "v2 = fl (v1 * 100)"
  define r :: rat where "r = of_int (round_half_even (v2 * 100)) / 100"
  have q0: "0 \<le> q" by (simp add: q_def)
  have v10: "0 \<le> v1" and v20: "0 \<le> v2" by (simp_all add: v1_def v2_def fl_nonneg)
  have r0: "0 \<le> r" using round_half_even_nonneg[of "v2 * 100"] v20 by (simp add: r_def)
  have e1: "\<bar>v1 - q\<bar> \<le> q / 2 ^ 53" unfolding v1_def by (rule fl_error[OF q0])
  have e2: "\<bar>v2 - v1 * 100\<bar> \<le> v1 * 100 / 2 ^ 53"
    unfolding v2_def using v10 by (intro fl_error) simp
  have "\<bar>of_int (round_half_even (v2 * 100)) - v2 * 100\<bar> \<le> 1 / 2"
    by (rule round_half_even_bound)
  then have e3: "\<bar>r - v2\<bar> \<le> 1 / 200" by (simp add: r_def abs_if field_simps split: if_splits)
  have e4: "\<bar>fl r - r\<bar> \<le> r / 2 ^ 53" by (rule fl_error[OF r0])
  have res: "funnel_rate n d = fl r"
    using assms by (simp add: funnel_rate_def py_round2_def py_mul_def py_truediv_def r_def v2_def v1_def q_def)
  have l1: "v1 - q \<le> q / 9007199254740992" "q - v1 \<le> q / 9007199254740992"
    using e1 unfolding abs_le_iff by simp_all
  have l2: "v2 - v1 * 100 \<le> v1 * 100 / 9007199254740992" "v1 * 100 - v2 \<le> v1 * 100 / 9007199254740992"
    using e2 unfolding abs_le_iff by simp_all
  have l3: "r - v2 \<le> 1 / 200" "v2 - r \<le> 1 / 200"
    using e3 unfolding abs_le_iff by simp_all
  have l4: "fl r - r \<le> r / 9007199254740992" "r - fl r \<le> r / 9007199254740992"
    using e4 unfolding abs_le_iff by simp_all
  have u1: "fl r - 100 * q \<le> 1 / 200 + 100 * q / 2251799813685248 + 1 / 2251799813685248"
    using l1 l2 l3 l4 q0 v10 v20 r0 by linarith
  have u2: "100 * q - fl r \<le> 1 / 200 + 100 * q / 2251799813685248 + 1 / 2251799813685248"
    using l1 l2 l3 l4 q0 v10 v20 r0 by linarith
  have "\<bar>fl r - 100 * q\<bar> \<le> 1 / 200 + (100 * q + 1) / 2 ^ 51"
    using u1 u2 by (simp add: abs_le_iff add_divide_distrib)
  then show ?thesis unfolding res q_def .
qed

lemma distinct_filter_keys:
  "(\<And>x. length (filter (\<lambda>e. f e = x \<and> P e) xs) \<le> 1) \<Longrightarrow> distinct (map f (filter P xs))"
proof (induction xs)
  case Nil
  then show ?case by simp
next
  case (Cons a xs)
  have tl: "length (filter (\<lambda>e. f e = x \<and> P e) xs) \<le> 1" for x
    using Cons.prems[of x] by (simp split: if_splits)
  have IH: "distinct (map f (filter P xs))" by (rule Cons.IH[OF tl])
  show ?case
  proof (cases "P a")
    case False
    with IH show ?thesis by simp
  next
    case True
    have "f a \<notin> f ` set (filter P xs)"
    proof
      assume "f a \<in> f ` set (filter P xs)"
      then obtain e where "e \<in> set xs" "P e" "f e = f a" by auto
      then have "filter (\<lambda>e. f e = f a \<and> P e) xs \<noteq> []" by (auto simp: filter_empty_conv)
      then have "1 \<le> length (filter (\<lambda>e. f e = f a \<and> P e) xs)" by (simp add: Suc_le_eq)
      with Cons.prems[of "f a"] True show False by simp
    qed
    with IH True show ?thesis by simp
  qed
qed

lemma rows_are_targets:
  assumes pk: "primary_key d" and once: "\<And>cid. count_events d cid k \<le> 1"
  shows "length (event_rows d i k) = card (engaged_targets d i k)"
proof -
  let ?P = "\<lambda>e. ev_event_type e = k \<and> in_campaign d i (ev_campaign_target_id e)"
  have "length (filter (\<lambda>e. ev_campaign_target_id e = x \<and> ?P e) (email_events d)) \<le> 1" for x
  proof -
    have "length (filter (\<lambda>e. ev_campaign_target_id e = x \<and> ?P e) (email_events d))
            \<le> length (filter (\<lambda>e. ev_campaign_target_id e = x \<and> ev_event_type e = k) (email_events d))"
    proof -
      have "length (filter (\<lambda>e. A e \<and> B e) xs) \<le> length (filter A xs)" for A B and xs :: "email_event list"
        by (induction xs) (auto simp: le_SucI)
      from this[of "\<lambda>e. ev_campaign_target_id e = x \<and> ev_event_type e = k"
                   "\<lambda>e. in_campaign d i (ev_campaign_target_id e)" "email_events d"]
      show ?thesis by (simp add: conj_ac)
    qed
    with once[of x] show ?thesis by (simp add: count_events_def)
  qed
  then have "distinct (map ev_campaign_target_id (filter ?P (email_events d)))"
    by (rule distinct_filter_keys)
  from distinct_card[OF this]
  have "card (engaged_targets d i k) = length (filter ?P (email_events d))"
    by (simp add: engaged_targets_def)
  with sent_rows_length[OF pk, of i k] show ?thesis by simp
qed

subsection \<open>Campaign metrics\<close>

lemma funnel_examples:
  "funnel_rate 10 10 = 100" "funnel_rate 6 10 = 60" "funnel_rate 3 6 = 50"
  "funnel_rate 1 3 = fl (3333 / 100)" "\<bar>fl (3333 / 100) - 3333 / 100\<bar> < 1 / 10 ^ 14"
  by code_simp+

text \<open>
  On PostgreSQL the metrics are the ones of the specification: the number of the targets
  of the campaign, the number of its \<open>sent\<close> events and the numbers of distinct
  campaign targets with an \<open>opened\<close>, a \<open>clicked\<close> and a \<open>submitted\<close> event; each rate is
  the count over the count of the stage before, times 100 and rounded to two places in
  Python's float arithmetic, 0 for a denominator 0.
\<close>

lemma metrics_distinct_on:
  assumes c: "get_campaign d i = Some c" and pk: "primary_key d"
      and pg: "dialect uri = ''postgresql''"
  shows "(\<exists>m. calculate_campaign_metrics uri d i = Some m
          \<and> total_targets m = card {ct \<in> set (campaign_targets d). ct_campaign_id ct = i}
          \<and> emails_sent m
              = length (filter (\<lambda>e. ev_event_type e = EvSent \<and> in_campaign d i (ev_campaign_target_id e))
                          (email_events d))
          \<and> unique_opens m = card (engaged_targets d i EvOpened)
          \<and> unique_clicks m = card (engaged_targets d i EvClicked)
          \<and> unique_submissions m = card (engaged_targets d i EvSubmitted)
          \<and> delivery_rate m = funnel_rate (emails_sent m) (total_targets m)
          \<and> open_rate m = funnel_rate (unique_opens m) (emails_sent m)
          \<and> click_rate m = funnel_rate (unique_clicks m) (unique_opens m)
          \<and> submission_rate m = funnel_rate (unique_submissions m) (unique_clicks m))
       \<and> funnel_rate n 0 = 0
       \<and> (\<exists>z. funnel_rate n k = fl (of_int z / 100))
       \<and> (0 < k \<longrightarrow>
            \<bar>funnel_rate n k - 100 * (of_nat n / of_nat k)\<bar>
              \<le> 1 / 200 + (100 * (of_nat n / of_nat k) + 1) / 2 ^ 51)"
proof -
  have z0: "py_round2 0 = 0" by (simp add: py_round2_def round_half_even_def fl_def)
  have fr: "py_round2 (if 0 < b then py_mul (py_truediv a b) 100 else 0) = funnel_rate a b" for a b
    by (simp add: funnel_rate_def z0)
  have A: "\<exists>m. calculate_campaign_metrics uri d i = Some m
          \<and> total_targets m = card {ct \<in> set (campaign_targets d). ct_campaign_id ct = i}
          \<and> emails_sent m
              = length (filter (\<lambda>e. ev_event_type e = EvSent \<and> in_campaign d i (ev_campaign_target_id e))
                          (email_events d))
          \<and> unique_opens m = card (engaged_targets d i EvOpened)
          \<and> unique_clicks m = card (engaged_targets d i EvClicked)
          \<and> unique_submissions m = card (engaged_targets d i EvSubmitted)
          \<and> delivery_rate m = funnel_rate (emails_sent m) (total_targets m)
          \<and> open_rate m = funnel_rate (unique_opens m) (emails_sent m)
          \<and> click_rate m = funnel_rate (unique_clicks m) (unique_opens m)
          \<and> submission_rate m = funnel_rate (unique_submissions m) (unique_clicks m)"
    using c
    by (simp add: calculate_campaign_metrics_def Let_def fr
          total_targets_card[OF pk] sent_rows_length[OF pk] distinct_targets_card[OF pg])
  have B: "funnel_rate n 0 = 0" by (simp add: funnel_rate_def)
  have C: "\<exists>z. funnel_rate n k = fl (of_int z / 100)"
  proof (cases "k = 0")
    case True
    have "fl (of_int 0 / 100) = 0" by (simp add: fl_def)
    with True show ?thesis unfolding funnel_rate_def by (intro exI[of _ 0]) simp
  next
    case False
    then show ?thesis unfolding funnel_rate_def py_round2_def by auto
  qed
  have D: "0 < k \<longrightarrow>
            \<bar>funnel_rate n k - 100 * (of_nat n / of_nat k)\<bar>
              \<le> 1 / 200 + (100 * (of_nat n / of_nat k) + 1) / 2 ^ 51"
    using funnel_rate_accuracy[of k n] by blast
  from A B C D show ?thesis by blast
qed

text \<open>
  On every other dialect, with primary keys on both tables, the three counts are numbers
  of events, a campaign target counting as often as it has events of the kind.
\<close>

lemma metrics_count_rows:
  assumes c: "get_campaign d i = Some c" and pk: "primary_key d"
      and ek: "distinct (map ev_id (email_events d))"
      and other: "dialect uri \<noteq> ''postgresql''"
  shows "\<exists>m. calculate_campaign_metrics uri d i = Some m
          \<and> unique_opens m
              = length (filter (\<lambda>e. ev_event_type e = EvOpened \<and> in_campaign d i (ev_campaign_target_id e))
                          (email_events d))
          \<and> unique_clicks m
              = length (filter (\<lambda>e. ev_event_type e = EvClicked \<and> in_campaign d i (ev_campaign_target_id e))
                          (email_events d))
          \<and> unique_submissions m
              = length (filter (\<lambda>e. ev_event_type e = EvSubmitted \<and> in_campaign d i (ev_campaign_target_id e))
                          (email_events d))
          \<and> open_rate m = funnel_rate (unique_opens m) (emails_sent m)
          \<and> click_rate m = funnel_rate (unique_clicks m) (unique_opens m)
          \<and> submission_rate m = funnel_rate (unique_submissions m) (unique_clicks m)"
proof -
  have z0: "py_round2 0 = 0" by (simp add: py_round2_def round_half_even_def fl_def)
  have fr: "py_round2 (if 0 < b then py_mul (py_truediv a b) 100 else 0) = funnel_rate a b" for a b
    by (simp add: funnel_rate_def z0)
  show ?thesis
    using c
    by (simp add: calculate_campaign_metrics_def Let_def fr
          distinct_rows_count[OF pk ek other] sent_rows_length[OF pk])
qed

text \<open>
  C3. The unique opens, clicks and submissions are not counted as distinct campaign
  targets on the database the configuration names by default, SQLite. On the table of the
  funnel example, ten targets with a mail sent to each, six of them with an \<open>opened\<close>
  event (one with two), three with a \<open>clicked\<close> and one with a \<open>submitted\<close> event, the
  metrics give 7 opens, an open rate of 70.0 and a click rate of 42.86, where six
  distinct targets have opened and the rates are 60.0 and 50.0, as they come out on
  PostgreSQL.
\<close>

theorem campaign_metrics_count_rows:
  "SQLALCHEMY_DATABASE_URI None = ''sqlite:///phishing_platform.db''
   \<and> dialect (SQLALCHEMY_DATABASE_URI None) = ''sqlite''
   \<and> primary_key ex_db_funnel
   \<and> distinct (map ev_id (email_events ex_db_funnel))
   \<and> card (engaged_targets ex_db_funnel 1 EvOpened) = 6
   \<and> card (engaged_targets ex_db_funnel 1 EvClicked) = 3
   \<and> card (engaged_targets ex_db_funnel 1 EvSubmitted) = 1
   \<and> map_option (\<lambda>m. (total_targets m, emails_sent m, unique_opens m, unique_clicks m,
                       unique_submissions m, delivery_rate m, open_rate m, click_rate m, submission_rate m))
        (calculate_campaign_metrics (SQLALCHEMY_DATABASE_URI None) ex_db_funnel 1)
       = Some (10, 10, 7, 3, 1, 100, 70, fl (4286 / 100), fl (3333 / 100))
   \<and> map_option (\<lambda>m. (total_targets m, emails_sent m, unique_opens m, unique_clicks m,
                       unique_submissions m, delivery_rate m, open_rate m, click_rate m, submission_rate m))
        (calculate_campaign_metrics ''postgresql://localhost/phishing'' ex_db_funnel 1)
       = Some (10, 10, 6, 3, 1, 100, 60, 50, fl (3333 / 100))
   \<and> funnel_rate 10 10 = 100 \<and> funnel_rate 6 10 = 60 \<and> funnel_rate 3 6 = 50
   \<and> funnel_rate 1 3 = fl (3333 / 100) \<and> \<bar>fl (3333 / 100) - 3333 / 100\<bar> < 1 / 10 ^ 14
   \<and> funnel_rate 7 10 = 70 \<and> funnel_rate 3 7 = fl (4286 / 100)
   \<and> \<bar>fl (4286 / 100) - 4286 / 100\<bar> < 1 / 10 ^ 14"
proof -
  have u: "SQLALCHEMY_DATABASE_URI None = ''sqlite:///phishing_platform.db''"
          "dialect (SQLALCHEMY_DATABASE_URI None) = ''sqlite''" by code_simp+
  have c: "get_campaign ex_db_funnel 1 = Some (hd (campaigns ex_db_funnel))" by code_simp
  have pk: "primary_key ex_db_funnel" by code_simp
  have ek: "distinct (map ev_id (email_events ex_db_funnel))" by code_simp
  have pg: "dialect ''postgresql://localhost/phishing'' = ''postgresql''" by code_simp
  have v: "map_option (\<lambda>m. (total_targets m, emails_sent m, unique_opens m, unique_clicks m,
                       unique_submissions m, delivery_rate m, open_rate m, click_rate m, submission_rate m))
        (calculate_campaign_metrics (SQLALCHEMY_DATABASE_URI None) ex_db_funnel 1)
       = Some (10, 10, 7, 3, 1, 100, 70, fl (4286 / 100), fl (3333 / 100))" by code_simp
  have w: "map_option (\<lambda>m. (total_targets m, emails_sent m, unique_opens m, unique_clicks m,
                       unique_submissions m, delivery_rate m, open_rate m, click_rate m, submission_rate m))
        (calculate_campaign_metrics ''postgresql://localhost/phishing'' ex_db_funnel 1)
       = Some (10, 10, 6, 3, 1, 100, 60, 50, fl (3333 / 100))" by code_simp
  from metrics_distinct_on[OF c pk pg] obtain m where
    m: "calculate_campaign_metrics ''postgresql://localhost/phishing'' ex_db_funnel 1 = Some m"
       "unique_opens m = card (engaged_targets ex_db_funnel 1 EvOpened)"
       "unique_clicks m = card (engaged_targets ex_db_funnel 1 EvClicked)"
       "unique_submissions m = card (engaged_targets ex_db_funnel 1 EvSubmitted)" by blast
  from w m(1) have "unique_opens m = 6" "unique_clicks m = 3" "unique_submissions m = 1" by simp_all
  with m have k: "card (engaged_targets ex_db_funnel 1 EvOpened) = 6"
                 "card (engaged_targets ex_db_funnel 1 EvClicked) = 3"
                 "card (engaged_targets ex_db_funnel 1 EvSubmitted) = 1" by simp_all
  have x: "funnel_rate 7 10 = 70" "funnel_rate 3 7 = fl (4286 / 100)"
          "\<bar>fl (4286 / 100) - 4286 / 100\<bar> < 1 / 10 ^ 14" by code_simp+
  from u pk ek k v w funnel_examples x show ?thesis by (simp only: simp_thms)
qed

end
